theory Spec2Isabelle
  imports Main "HOL-Library.Sublist"
begin

section \<open>Python values, exceptions and strings\<close>

text \<open>
  The values the modelled code handles: \<open>None\<close>, booleans, integers, strings, lists and
  dictionaries with string keys. A dictionary is an association list in insertion order,
  as Python keeps it; a key is looked up with \<open>map_of\<close>. No function modelled here
  inspects a number, so non-integer numbers are not represented.
\<close>

datatype pyval =
    PyNone
  | PyBool bool
  | PyInt int
  | PyStr string
  | PyList "pyval list"
  | PyDict "(string \<times> pyval) list"

text \<open>
  The exceptions that reach an \<open>except Exception\<close> handler of the modelled code. Each
  carries what \<open>str(e)\<close> needs. \<open>OtherError\<close> stands for whatever an external call (the
  language model client, \<open>json.dumps\<close>) raises.
\<close>

datatype exn =
    KeyError string
  | ValueError string
  | AttributeError string
  | TypeError string
  | JSONDecodeError string
  | OtherError string

fun str_exn :: "exn \<Rightarrow> string" where
  "str_exn (KeyError k) = CHR 0x27 # k @ [CHR 0x27]"
| "str_exn (ValueError m) = m"
| "str_exn (AttributeError m) = m"
| "str_exn (TypeError m) = m"
| "str_exn (JSONDecodeError m) = m"
| "str_exn (OtherError m) = m"

text \<open>\<open>d[k]\<close> on a dictionary: \<open>KeyError\<close> when the key is absent.\<close>

definition getitem :: "(string \<times> pyval) list \<Rightarrow> string \<Rightarrow> exn + pyval" where
  "getitem d k = (case map_of d k of None \<Rightarrow> Inl (KeyError k) | Some v \<Rightarrow> Inr v)"

text \<open>\<open>d.get(k)\<close>: \<open>None\<close> when the key is absent.\<close>

definition dict_get :: "(string \<times> pyval) list \<Rightarrow> string \<Rightarrow> pyval" where
  "dict_get d k = (case map_of d k of None \<Rightarrow> PyNone | Some v \<Rightarrow> v)"

text \<open>
  \<open>str.lower()\<close> on the ASCII letters; every other character is left as it is. The
  strings compared after lowering are ASCII (the catalog of the CRM mock, the words
  \<open>yes\<close> and \<open>no\<close>).
\<close>

definition lower_char :: "char \<Rightarrow> char" where
  "lower_char c =
     (case map_of (zip ''ABCDEFGHIJKLMNOPQRSTUVWXYZ'' ''abcdefghijklmnopqrstuvwxyz'') c of
        Some l \<Rightarrow> l
      | None \<Rightarrow> c)"

definition lower :: "string \<Rightarrow> string" where
  "lower s = map lower_char s"

text \<open>\<open>needle in hay\<close> on strings: \<open>needle\<close> occurs in \<open>hay\<close> as a contiguous run.\<close>

fun starts_with :: "'a list \<Rightarrow> 'a list \<Rightarrow> bool" where
  "starts_with hay [] = True"
| "starts_with [] (n # ns) = False"
| "starts_with (h # hs) (n # ns) = (h = n \<and> starts_with hs ns)"

fun str_in :: "'a list \<Rightarrow> 'a list \<Rightarrow> bool" where
  "str_in needle [] = (needle = [])"
| "str_in needle (h # hs) = (starts_with (h # hs) needle \<or> str_in needle hs)"

section \<open>The CRM mock service (app/services/crm.py)\<close>

text \<open>
  \<open>CRMService.get_customer\<close>: the body of the \<open>try\<close> is an \<open>if\<close>/\<open>elif\<close> chain on the
  identifier; the simulated delay has no effect on the result. The body returns
  \<open>exn + _\<close> so that the handler, which returns \<open>None\<close>, is a branch of the model.
\<close>

definition customer_CUST12345 :: "(string \<times> pyval) list" where
  "customer_CUST12345 =
     [(''id'', PyStr ''CUST12345''),
      (''name'', PyStr ''John Smith''),
      (''email'', PyStr ''john.smith@example.com''),
      (''phone'', PyStr ''555-123-4567''),
      (''company'', PyStr ''ABC Corp''),
      (''status'', PyStr ''Active''),
      (''plan'', PyStr ''Enterprise''),
      (''created_at'', PyStr ''2022-01-15T10:30:00Z''),
      (''last_contact'', PyStr ''2023-09-28T14:45:00Z''),
      (''notes'', PyStr ''Frequent support requests about login issues'')]"

definition customer_CUST67890 :: "(string \<times> pyval) list" where
  "customer_CUST67890 =
     [(''id'', PyStr ''CUST67890''),
      (''name'', PyStr ''Sarah Johnson''),
      (''email'', PyStr ''sarah.johnson@example.com''),
      (''phone'', PyStr ''555-987-6543''),
      (''company'', PyStr ''XYZ Inc''),
      (''status'', PyStr ''Active''),
      (''plan'', PyStr ''Professional''),
      (''created_at'', PyStr ''2022-03-22T09:15:00Z''),
      (''last_contact'', PyStr ''2023-10-10T11:20:00Z''),
      (''notes'', PyStr ''Recently upgraded from Basic plan'')]"

definition customer_CUST24680 :: "(string \<times> pyval) list" where
  "customer_CUST24680 =
     [(''id'', PyStr ''CUST24680''),
      (''name'', PyStr ''Michael Chen''),
      (''email'', PyStr ''michael.chen@example.com''),
      (''phone'', PyStr ''555-246-8024''),
      (''company'', PyStr ''Tech Solutions LLC''),
      (''status'', PyStr ''Active''),
      (''plan'', PyStr ''Professional''),
      (''created_at'', PyStr ''2022-05-10T14:00:00Z''),
      (''last_contact'', PyStr ''2023-10-05T16:30:00Z''),
      (''notes'', PyStr ''Interested in API integration features'')]"

definition customer_CUST13579 :: "(string \<times> pyval) list" where
  "customer_CUST13579 =
     [(''id'', PyStr ''CUST13579''),
      (''name'', PyStr ''David Wilson''),
      (''email'', PyStr ''david.wilson@acmecorp.com''),
      (''phone'', PyStr ''555-135-7913''),
      (''company'', PyStr ''Acme Corporation''),
      (''status'', PyStr ''Prospect''),
      (''plan'', PyNone),
      (''created_at'', PyStr ''2023-09-15T10:00:00Z''),
      (''last_contact'', PyStr ''2023-10-08T15:45:00Z''),
      (''notes'', PyStr ''In sales pipeline, demo provided on Oct 5'')]"

definition get_customer_body :: "string \<Rightarrow> exn + (string \<times> pyval) list option" where
  "get_customer_body customer_id =
     (if customer_id = ''CUST12345'' then Inr (Some customer_CUST12345)
      else if customer_id = ''CUST67890'' then Inr (Some customer_CUST67890)
      else if customer_id = ''CUST24680'' then Inr (Some customer_CUST24680)
      else if customer_id = ''CUST13579'' then Inr (Some customer_CUST13579)
      else Inr None)"

definition get_customer :: "string \<Rightarrow> (string \<times> pyval) list option" where
  "get_customer customer_id =
     (case get_customer_body customer_id of
        Inl e \<Rightarrow> None
      | Inr r \<Rightarrow> r)"

text \<open>
  \<open>CRMService.search_customers\<close>: the catalog is a local list of four dictionaries; the
  loop appends each matching one to \<open>results\<close>. \<open>customer["name"]\<close> is a dictionary
  read that raises \<open>KeyError\<close> on a missing key, and the handler returns the empty list.
\<close>

definition mock_customers :: "(string \<times> pyval) list list" where
  "mock_customers =
     [[(''id'', PyStr ''CUST12345''),
       (''name'', PyStr ''John Smith''),
       (''email'', PyStr ''john.smith@example.com''),
       (''company'', PyStr ''ABC Corp'')],
      [(''id'', PyStr ''CUST67890''),
       (''name'', PyStr ''Sarah Johnson''),
       (''email'', PyStr ''sarah.johnson@example.com''),
       (''company'', PyStr ''XYZ Inc'')],
      [(''id'', PyStr ''CUST24680''),
       (''name'', PyStr ''Michael Chen''),
       (''email'', PyStr ''michael.chen@example.com''),
       (''company'', PyStr ''Tech Solutions LLC'')],
      [(''id'', PyStr ''CUST13579''),
       (''name'', PyStr ''David Wilson''),
       (''email'', PyStr ''david.wilson@acmecorp.com''),
       (''company'', PyStr ''Acme Corporation'')]]"

text \<open>\<open>customer[k].lower()\<close>: the key must be present and hold a string.\<close>

definition field_lower :: "(string \<times> pyval) list \<Rightarrow> string \<Rightarrow> exn + string" where
  "field_lower customer k =
     (case getitem customer k of
        Inl e \<Rightarrow> Inl e
      | Inr (PyStr s) \<Rightarrow> Inr (lower s)
      | Inr _ \<Rightarrow> Inl (AttributeError ''lower''))"

text \<open>The condition of the loop; \<open>or\<close> evaluates its operands from left to right.\<close>

definition customer_matches :: "string \<Rightarrow> (string \<times> pyval) list \<Rightarrow> exn + bool" where
  "customer_matches query customer =
     (case field_lower customer ''name'' of
        Inl e \<Rightarrow> Inl e
      | Inr n \<Rightarrow>
          if str_in query n then Inr True
          else (case field_lower customer ''email'' of
                  Inl e \<Rightarrow> Inl e
                | Inr m \<Rightarrow>
                    if str_in query m then Inr True
                    else (case field_lower customer ''company'' of
                            Inl e \<Rightarrow> Inl e
                          | Inr c \<Rightarrow> Inr (str_in query c))))"

fun search_loop ::
  "string \<Rightarrow> (string \<times> pyval) list list \<Rightarrow> (string \<times> pyval) list list
     \<Rightarrow> exn + (string \<times> pyval) list list" where
  "search_loop query [] results = Inr results"
| "search_loop query (customer # rest) results =
     (case customer_matches query customer of
        Inl e \<Rightarrow> Inl e
      | Inr True \<Rightarrow> search_loop query rest (results @ [customer])
      | Inr False \<Rightarrow> search_loop query rest results)"

definition search_customers :: "string \<Rightarrow> (string \<times> pyval) list list" where
  "search_customers query =
     (case search_loop (lower query) mock_customers [] of
        Inl e \<Rightarrow> []
      | Inr results \<Rightarrow> results)"

text \<open>
  The matching condition in the words of the description: a catalog entry matches when
  its name, e-mail address or company, lowered, contains the lowered query.
\<close>

definition field_contains :: "string \<Rightarrow> (string \<times> pyval) list \<Rightarrow> string \<Rightarrow> bool" where
  "field_contains query customer k =
     (case map_of customer k of
        Some (PyStr s) \<Rightarrow> sublist (lower query) (lower s)
      | _ \<Rightarrow> False)"

definition entry_matches :: "string \<Rightarrow> (string \<times> pyval) list \<Rightarrow> bool" where
  "entry_matches query customer =
     (field_contains query customer ''name''
      \<or> field_contains query customer ''email''
      \<or> field_contains query customer ''company'')"

section \<open>Conversation memory (app/memory.py)\<close>

text \<open>
  A chat message has one of the message classes of the chat library, a content and a
  dictionary \<open>additional_kwargs\<close>. \<open>OtherMessage\<close> stands for every class that is none of
  the three named in \<open>_save_memory\<close>.
\<close>

datatype msg_type = HumanMessage | AIMessage | SystemMessage | OtherMessage

record message =
  mtype :: msg_type
  mcontent :: string
  additional_kwargs :: "(string \<times> pyval) list"

text \<open>
  The file \<open>agent_memory.json\<close>: absent, or holding the whole text of a value that
  \<open>json.dump\<close> wrote, or cut short. \<open>open(path, 'w')\<close> empties the file before anything is
  written, so a \<open>json.dump\<close> that raises leaves a leading part of the text (perhaps none),
  which is no JSON document.
\<close>

datatype file_state = NoFile | Written pyval | Truncated

text \<open>
  What happens when \<open>_save_memory\<close> writes a value is a parameter of the model:
  \<open>open\<close> raises and the file stays as it was, or \<open>json.dump\<close> raises after the file was
  emptied (a value it cannot encode, an integer beyond the digit limit, a nesting beyond
  the recursion limit), or the whole text is written.
\<close>

datatype write_outcome = Wrote | OpenFailed exn | DumpFailed exn

type_synonym write_fn = "pyval \<Rightarrow> write_outcome"

text \<open>
  The memory object: the message list of \<open>chat_memory\<close>, the customer contexts (a
  dictionary of dictionaries), the file, and the lines \<open>_save_memory\<close> passed to
  \<open>logger.error\<close> so far.
\<close>

record agent_memory =
  messages :: "message list"
  customer_contexts :: "(string \<times> (string \<times> pyval) list) list"
  memory_file :: file_state
  error_log :: "string list"

text \<open>
  The loop of \<open>_save_memory\<close> over the messages: an \<open>isinstance\<close> chain with no final
  \<open>else\<close>, so a message of another class adds nothing.
\<close>

fun serialize_messages :: "message list \<Rightarrow> pyval list \<Rightarrow> pyval list" where
  "serialize_messages [] acc = acc"
| "serialize_messages (m # ms) acc =
     (if mtype m = HumanMessage then
        serialize_messages ms
          (acc @ [PyDict [(''type'', PyStr ''human''), (''content'', PyStr (mcontent m))]])
      else if mtype m = AIMessage then
        serialize_messages ms
          (acc @ [PyDict [(''type'', PyStr ''ai''), (''content'', PyStr (mcontent m))]])
      else if mtype m = SystemMessage then
        serialize_messages ms
          (acc @ [PyDict [(''type'', PyStr ''system''), (''content'', PyStr (mcontent m))]])
      else serialize_messages ms acc)"

text \<open>
  \<open>_save_memory\<close>; \<open>now\<close> is \<open>datetime.now().isoformat()\<close> at the time of the call. The
  handler catches what the write raises and logs it.
\<close>

definition save_memory :: "write_fn \<Rightarrow> string \<Rightarrow> agent_memory \<Rightarrow> agent_memory" where
  "save_memory write_file now s =
     (let msgs = serialize_messages (messages s) [];
          data = PyDict
            [(''customer_contexts'', PyDict (map (\<lambda>(k, d). (k, PyDict d)) (customer_contexts s))),
             (''messages'', PyList msgs),
             (''last_updated'', PyStr now)]
      in case write_file data of
           Wrote \<Rightarrow> s\<lparr>memory_file := Written data\<rparr>
         | OpenFailed e \<Rightarrow>
             s\<lparr>error_log := error_log s @ [''Error saving memory: '' @ str_exn e]\<rparr>
         | DumpFailed e \<Rightarrow>
             s\<lparr>memory_file := Truncated,
               error_log := error_log s @ [''Error saving memory: '' @ str_exn e]\<rparr>)"

text \<open>
  \<open>save_context\<close>: the base class picks the input and the output string out of the two
  dictionaries (a function of the chat library, here the parameter \<open>get_input_output\<close>,
  which can raise), appends a human and an AI message, and the override then saves.
\<close>

definition save_context ::
  "write_fn
     \<Rightarrow> ((string \<times> pyval) list \<Rightarrow> (string \<times> pyval) list \<Rightarrow> exn + string \<times> string)
     \<Rightarrow> string \<Rightarrow> (string \<times> pyval) list \<Rightarrow> (string \<times> pyval) list
     \<Rightarrow> agent_memory \<Rightarrow> exn + agent_memory" where
  "save_context write_file get_input_output now inputs outputs s =
     (case get_input_output inputs outputs of
        Inl e \<Rightarrow> Inl e
      | Inr (input_str, output_str) \<Rightarrow>
          Inr (save_memory write_file now
            (s\<lparr>messages := messages s
                  @ [\<lparr>mtype = HumanMessage, mcontent = input_str, additional_kwargs = []\<rparr>,
                     \<lparr>mtype = AIMessage, mcontent = output_str, additional_kwargs = []\<rparr>]\<rparr>)))"

text \<open>\<open>clear\<close>: the base class empties the message list, the override then saves.\<close>

definition clear :: "write_fn \<Rightarrow> string \<Rightarrow> agent_memory \<Rightarrow> agent_memory" where
  "clear write_file now s = save_memory write_file now (s\<lparr>messages := []\<rparr>)"

text \<open>
  \<open>d[k] = v\<close> and \<open>d.update(other)\<close> on a dictionary: an existing key keeps its place, a
  new key goes to the end.
\<close>

fun dict_set :: "(string \<times> 'v) list \<Rightarrow> string \<Rightarrow> 'v \<Rightarrow> (string \<times> 'v) list" where
  "dict_set [] k v = [(k, v)]"
| "dict_set ((k', v') # d) k v = (if k' = k then (k, v) # d else (k', v') # dict_set d k v)"

fun dict_update :: "(string \<times> 'v) list \<Rightarrow> (string \<times> 'v) list \<Rightarrow> (string \<times> 'v) list" where
  "dict_update d [] = d"
| "dict_update d ((k, v) # rest) = dict_update (dict_set d k v) rest"

text \<open>
  \<open>update_customer_context\<close> reads the clock twice: \<open>stamp\<close> goes into the context, \<open>now\<close>
  is read later, in \<open>_save_memory\<close>.
\<close>

definition update_customer_context ::
  "write_fn \<Rightarrow> string \<Rightarrow> string \<Rightarrow> string \<Rightarrow> (string \<times> pyval) list
     \<Rightarrow> agent_memory \<Rightarrow> agent_memory" where
  "update_customer_context write_file stamp now customer_id context_data s =
     (let ctxs = (if map_of (customer_contexts s) customer_id = None
                  then dict_set (customer_contexts s) customer_id []
                  else customer_contexts s);
          ctx = (case map_of ctxs customer_id of None \<Rightarrow> [] | Some c \<Rightarrow> c);
          ctx' = dict_set (dict_update ctx context_data) ''last_updated'' (PyStr stamp)
      in save_memory write_file now (s\<lparr>customer_contexts := dict_set ctxs customer_id ctx'\<rparr>))"

text \<open>
  \<open>xs[i:]\<close> for an integer \<open>i\<close>: a negative index counts from the end and is clamped at the
  start of the list.
\<close>

definition slice_from :: "'a list \<Rightarrow> int \<Rightarrow> 'a list" where
  "slice_from xs i =
     (if i < 0 then drop (nat (max 0 (int (length xs) + i))) xs else drop (nat i) xs)"

text \<open>The filter loop of \<open>get_relevant_history\<close>.\<close>

fun relevant_loop :: "string \<Rightarrow> message list \<Rightarrow> message list \<Rightarrow> message list" where
  "relevant_loop customer_id [] relevant_messages = relevant_messages"
| "relevant_loop customer_id (m # ms) relevant_messages =
     (if dict_get (additional_kwargs m) ''customer_id'' = PyStr customer_id
      then relevant_loop customer_id ms (relevant_messages @ [m])
      else relevant_loop customer_id ms relevant_messages)"

text \<open>
  \<open>get_relevant_history\<close>; \<open>not customer_id\<close> holds for \<open>None\<close> and for the empty string.
\<close>

definition get_relevant_history :: "agent_memory \<Rightarrow> string option \<Rightarrow> int \<Rightarrow> message list" where
  "get_relevant_history s customer_id max_messages =
     (let all_messages = messages s in
      case customer_id of
        None \<Rightarrow> slice_from all_messages (- max_messages)
      | Some cid \<Rightarrow>
          if cid = [] then slice_from all_messages (- max_messages)
          else slice_from (relevant_loop cid all_messages []) (- max_messages))"

text \<open>
  What a reader of the file finds in it: the list under \<open>messages\<close> and the dictionary
  under \<open>customer_contexts\<close>; nothing in a file that is absent or cut short.
\<close>

definition file_messages :: "file_state \<Rightarrow> pyval list" where
  "file_messages f =
     (case f of
        Written (PyDict d) \<Rightarrow> (case map_of d ''messages'' of Some (PyList ms) \<Rightarrow> ms | _ \<Rightarrow> [])
      | _ \<Rightarrow> [])"

definition file_contexts :: "file_state \<Rightarrow> (string \<times> pyval) list" where
  "file_contexts f =
     (case f of
        Written (PyDict d) \<Rightarrow>
          (case map_of d ''customer_contexts'' of Some (PyDict c) \<Rightarrow> c | _ \<Rightarrow> [])
      | _ \<Rightarrow> [])"

text \<open>The role-tagged form of a message, and the messages that have one.\<close>

definition role_tagged :: "message \<Rightarrow> pyval" where
  "role_tagged m =
     PyDict [(''type'', PyStr (if mtype m = HumanMessage then ''human''
                               else if mtype m = AIMessage then ''ai'' else ''system'')),
             (''content'', PyStr (mcontent m))]"

definition transcript :: "agent_memory \<Rightarrow> pyval list" where
  "transcript s = map role_tagged (filter (\<lambda>m. mtype m \<noteq> OtherMessage) (messages s))"

text \<open>
  The whole state as one value: every customer context, the whole transcript and the
  time of writing.
\<close>

definition snapshot :: "string \<Rightarrow> agent_memory \<Rightarrow> pyval" where
  "snapshot now s =
     PyDict
       [(''customer_contexts'', PyDict (map (\<lambda>(k, d). (k, PyDict d)) (customer_contexts s))),
        (''messages'', PyList (transcript s)),
        (''last_updated'', PyStr now)]"

text \<open>The memory as \<open>__init__\<close> leaves it when no file exists yet.\<close>

definition initial_memory :: agent_memory where
  "initial_memory =
     \<lparr>messages = [], customer_contexts = [], memory_file = NoFile, error_log = []\<rparr>"

text \<open>
  The chat library's choice of the two strings, for a memory that names no input and no
  output key: the inputs must hold one key besides \<open>chat_history\<close> and \<open>stop\<close>, the
  outputs one key, and the message classes take a string as content.
\<close>

definition get_input_output ::
  "(string \<times> pyval) list \<Rightarrow> (string \<times> pyval) list \<Rightarrow> exn + string \<times> string" where
  "get_input_output inputs outputs =
     (case filter (\<lambda>kv. fst kv \<noteq> ''chat_history'' \<and> fst kv \<noteq> ''stop'') inputs of
        [(k, PyStr i)] \<Rightarrow>
          (case outputs of
             [(k', PyStr out)] \<Rightarrow> Inr (i, out)
           | _ \<Rightarrow> Inl (ValueError ''One output key expected''))
      | _ \<Rightarrow> Inl (ValueError ''One input key expected''))"

text \<open>
  A write as \<open>json.dump\<close> does it on the values used in the examples below: an integer
  of more than 4300 digits cannot be turned into text (\<open>ValueError\<close>), and the dump of
  a value without one goes through. \<open>huge_int\<close> is an integer of 5001 digits.
\<close>

definition digit_limit :: int where
  "digit_limit = 10 ^ 4300"

definition huge_int :: int where
  "huge_int = 10 ^ 5000"

fun over_digit_limit :: "pyval \<Rightarrow> bool" where
  "over_digit_limit (PyInt i) = (digit_limit \<le> \<bar>i\<bar>)"
| "over_digit_limit (PyList xs) = list_ex over_digit_limit xs"
| "over_digit_limit (PyDict d) = list_ex (\<lambda>kv. over_digit_limit (snd kv)) d"
| "over_digit_limit v = False"

definition write_with_digit_limit :: write_fn where
  "write_with_digit_limit data =
     (if over_digit_limit data
      then DumpFailed (ValueError ''Exceeds the limit (4300 digits) for integer string conversion'')
      else Wrote)"

text \<open>
  The operations that change the memory, each with the clock readings it makes, and a
  run of them from a state. A \<open>save_context\<close> that raises leaves the state as it was.
\<close>

datatype memory_op =
    SaveContext string "(string \<times> pyval) list" "(string \<times> pyval) list"
  | UpdateCustomerContext string string string "(string \<times> pyval) list"
  | Clear string

fun apply_op ::
  "write_fn
     \<Rightarrow> ((string \<times> pyval) list \<Rightarrow> (string \<times> pyval) list \<Rightarrow> exn + string \<times> string)
     \<Rightarrow> memory_op \<Rightarrow> agent_memory \<Rightarrow> agent_memory" where
  "apply_op write_file gio (SaveContext now inputs outputs) s =
     (case save_context write_file gio now inputs outputs s of Inl e \<Rightarrow> s | Inr s' \<Rightarrow> s')"
| "apply_op write_file gio (UpdateCustomerContext stamp now customer_id context_data) s =
     update_customer_context write_file stamp now customer_id context_data s"
| "apply_op write_file gio (Clear now) s = clear write_file now s"

fun run_ops ::
  "write_fn
     \<Rightarrow> ((string \<times> pyval) list \<Rightarrow> (string \<times> pyval) list \<Rightarrow> exn + string \<times> string)
     \<Rightarrow> memory_op list \<Rightarrow> agent_memory \<Rightarrow> agent_memory" where
  "run_ops write_file gio [] s = s"
| "run_ops write_file gio (op # ops) s = run_ops write_file gio ops (apply_op write_file gio op s)"

fun is_clear :: "memory_op \<Rightarrow> bool" where
  "is_clear (Clear now) = True"
| "is_clear (SaveContext now inputs outputs) = False"
| "is_clear (UpdateCustomerContext stamp now customer_id context_data) = False"

text \<open>No step of a run logs a failed write.\<close>

fun writes_succeed ::
  "write_fn
     \<Rightarrow> ((string \<times> pyval) list \<Rightarrow> (string \<times> pyval) list \<Rightarrow> exn + string \<times> string)
     \<Rightarrow> memory_op list \<Rightarrow> agent_memory \<Rightarrow> bool" where
  "writes_succeed write_file gio [] s = True"
| "writes_succeed write_file gio (op # ops) s =
     (error_log (apply_op write_file gio op s) = error_log s
      \<and> writes_succeed write_file gio ops (apply_op write_file gio op s))"

text \<open>What the file holds after an attempt to write \<open>data\<close> over a file \<open>before\<close>.\<close>

definition file_after :: "write_outcome \<Rightarrow> file_state \<Rightarrow> pyval \<Rightarrow> file_state" where
  "file_after outcome before data =
     (case outcome of
        Wrote \<Rightarrow> Written data
      | OpenFailed e \<Rightarrow> before
      | DumpFailed e \<Rightarrow> Truncated)"

text \<open>The lines such an attempt adds to the log.\<close>

definition log_after :: "write_outcome \<Rightarrow> string list" where
  "log_after outcome =
     (case outcome of
        Wrote \<Rightarrow> []
      | OpenFailed e \<Rightarrow> [''Error saving memory: '' @ str_exn e]
      | DumpFailed e \<Rightarrow> [''Error saving memory: '' @ str_exn e])"

section \<open>Helpers of the language-model tools\<close>

text \<open>Truthiness of a value, as \<open>if x\<close>, \<open>x and y\<close> and \<open>x or y\<close> test it.\<close>

definition truthy :: "pyval \<Rightarrow> bool" where
  "truthy v =
     (case v of
        PyNone \<Rightarrow> False
      | PyBool b \<Rightarrow> b
      | PyInt i \<Rightarrow> i \<noteq> 0
      | PyStr s \<Rightarrow> s \<noteq> []
      | PyList xs \<Rightarrow> xs \<noteq> []
      | PyDict d \<Rightarrow> d \<noteq> [])"

definition py_or :: "pyval \<Rightarrow> pyval \<Rightarrow> pyval" where
  "py_or a b = (if truthy a then a else b)"

text \<open>\<open>len(x)\<close>: defined on strings, lists and dictionaries, \<open>TypeError\<close> otherwise.\<close>

definition py_len :: "pyval \<Rightarrow> exn + nat" where
  "py_len v =
     (case v of
        PyStr s \<Rightarrow> Inr (length s)
      | PyList xs \<Rightarrow> Inr (length xs)
      | PyDict d \<Rightarrow> Inr (length d)
      | _ \<Rightarrow> Inl (TypeError ''object has no len()''))"



text \<open>
  \<open>s.find(c)\<close> and \<open>s.rfind(c)\<close> for a character: the first and the last index of \<open>c\<close>,
  \<open>-1\<close> when there is none.
\<close>

fun find_from :: "char \<Rightarrow> string \<Rightarrow> int \<Rightarrow> int" where
  "find_from c [] i = - 1"
| "find_from c (x # xs) i = (if x = c then i else find_from c xs (i + 1))"

definition str_find :: "string \<Rightarrow> char \<Rightarrow> int" where
  "str_find s c = find_from c s 0"

fun rfind_from :: "char \<Rightarrow> string \<Rightarrow> int \<Rightarrow> int \<Rightarrow> int" where
  "rfind_from c [] i found = found"
| "rfind_from c (x # xs) i found = rfind_from c xs (i + 1) (if x = c then i else found)"

definition str_rfind :: "string \<Rightarrow> char \<Rightarrow> int" where
  "str_rfind s c = rfind_from c s 0 (- 1)"

text \<open>\<open>s[a:b]\<close> for indices \<open>0 \<le> a\<close> and \<open>0 \<le> b\<close>: empty when \<open>b \<le> a\<close>.\<close>

definition slice :: "string \<Rightarrow> int \<Rightarrow> int \<Rightarrow> string" where
  "slice s a b = (if b \<le> a then [] else take (nat (b - a)) (drop (nat a) s))"

text \<open>
  \<open>re.search\<close> of the pattern \<open>```json\n(.*?)\n```\<close> with \<open>re.DOTALL\<close>, returning group 1
  of the match: the search tries the start positions from left to right; at a position
  where the opening fence matches, the lazy group takes the fewest characters (any
  characters, newlines too) after which the closing fence matches.
\<close>

definition fence_open :: string where
  "fence_open = [CHR 0x60, CHR 0x60, CHR 0x60, CHR ''j'', CHR ''s'', CHR ''o'', CHR ''n'', CHR 0x0A]"

definition fence_close :: string where
  "fence_close = [CHR 0x0A, CHR 0x60, CHR 0x60, CHR 0x60]"

fun lazy_group :: "string \<Rightarrow> string option" where
  "lazy_group [] = None"
| "lazy_group (c # cs) =
     (if starts_with (c # cs) fence_close then Some []
      else map_option ((#) c) (lazy_group cs))"

definition match_at :: "string \<Rightarrow> string option" where
  "match_at s =
     (if starts_with s fence_open then lazy_group (drop (length fence_open) s) else None)"

fun re_search :: "string \<Rightarrow> string option" where
  "re_search [] = None"
| "re_search (c # cs) =
     (case match_at (c # cs) of
        Some g \<Rightarrow> Some g
      | None \<Rightarrow> re_search cs)"

text \<open>
  The external functions are parameters. \<open>json_loads\<close> is \<open>json.loads\<close> on a string: the
  value, or the exception it raises, which is a \<open>JSONDecodeError\<close> for a text that is no
  JSON document and can be another one (a \<open>RecursionError\<close> for a nesting that is too
  deep, a \<open>ValueError\<close> for an integer with too many digits). \<open>json_dumps\<close> is
  \<open>json.dumps(x, indent=2)\<close>. \<open>llm\<close> is formatting one of the five prompts with its
  keyword arguments, invoking the model and reading the text of the response; it can
  raise anything.
\<close>

datatype prompt =
    SummaryPrompt
  | CategorizationPrompt
  | RoutingPrompt
  | SupportDetectionPrompt
  | CRMEntryPrompt

type_synonym json_loads_fn = "string \<Rightarrow> exn + pyval"
type_synonym json_dumps_fn = "pyval \<Rightarrow> exn + string"
type_synonym llm_fn = "prompt \<Rightarrow> (string \<times> pyval) list \<Rightarrow> exn + string"

text \<open>
  The extraction of a JSON value from the text of a response: the inner \<open>try\<close> block
  that \<open>_run_categorization\<close>, \<open>_run_routing\<close> and \<open>CRMEntryGenerator._run\<close> each contain,
  word for word. Only the first \<open>json.loads\<close> has a handler of its own, and that handler
  is for \<open>json.JSONDecodeError\<close> alone: any other exception of the first call, and every
  exception of a later one, leaves the block.
\<close>

definition extract_json :: "json_loads_fn \<Rightarrow> string \<Rightarrow> exn + pyval" where
  "extract_json json_loads content =
     (case json_loads content of
        Inr result \<Rightarrow> Inr result
      | Inl (JSONDecodeError m) \<Rightarrow>
          (case re_search content of
             Some json_str \<Rightarrow> json_loads json_str
           | None \<Rightarrow>
               (let start_idx = str_find content (CHR ''{'');
                    end_idx = str_rfind content (CHR ''}'')
                in if start_idx \<noteq> - 1 \<and> end_idx \<noteq> - 1 then
                     json_loads (slice content start_idx (end_idx + 1))
                   else Inl (ValueError ''Could not extract valid JSON from the response'')))
      | Inl e \<Rightarrow> Inl e)"

text \<open>
  The same extraction in the words of its description: the whole text; else the
  contents of the first fenced block; else the text from the first opening brace to the
  last closing brace, when a closing brace stands after the first opening one. \<open>None\<close>
  when the stage that applies does not parse, or none applies.
\<close>

definition braces_present :: "string \<Rightarrow> bool" where
  "braces_present s = (CHR ''}'' \<in> set (dropWhile (\<lambda>c. c \<noteq> CHR ''{'') s))"

definition brace_span :: "string \<Rightarrow> string" where
  "brace_span s =
     rev (dropWhile (\<lambda>c. c \<noteq> CHR ''}'') (rev (dropWhile (\<lambda>c. c \<noteq> CHR ''{'') s)))"

definition loads_opt :: "json_loads_fn \<Rightarrow> string \<Rightarrow> pyval option" where
  "loads_opt json_loads s = (case json_loads s of Inr v \<Rightarrow> Some v | Inl _ \<Rightarrow> None)"

definition later_stages :: "json_loads_fn \<Rightarrow> string \<Rightarrow> pyval option" where
  "later_stages json_loads text =
     (case re_search text of
        Some block \<Rightarrow> loads_opt json_loads block
      | None \<Rightarrow>
          if braces_present text then loads_opt json_loads (brace_span text)
          else None)"

definition extraction_stages :: "json_loads_fn \<Rightarrow> string \<Rightarrow> pyval option" where
  "extraction_stages json_loads text =
     (case json_loads text of
        Inr v \<Rightarrow> Some v
      | Inl e \<Rightarrow> later_stages json_loads text)"

text \<open>
  The stages as they are entered: the later ones only when the parse of the whole text
  failed with a \<open>JSONDecodeError\<close>.
\<close>

fun is_decode_error :: "exn \<Rightarrow> bool" where
  "is_decode_error (JSONDecodeError m) = True"
| "is_decode_error e = False"

definition extraction_stages_typed :: "json_loads_fn \<Rightarrow> string \<Rightarrow> pyval option" where
  "extraction_stages_typed json_loads text =
     (case json_loads text of
        Inr v \<Rightarrow> Some v
      | Inl e \<Rightarrow> if is_decode_error e then later_stages json_loads text else None)"

text \<open>
  \<open>json.loads\<close> on the texts of the examples below: the empty object parses; a text that
  opens a thousand lists or more goes beyond the recursion limit, which raises
  \<open>RecursionError\<close> and no \<open>JSONDecodeError\<close>; the other texts used are no JSON documents.
  \<open>deep_text\<close> is a thousand opening brackets followed by an empty object, and
  \<open>deep_llm\<close> a model that answers with it.
\<close>

definition sample_loads :: json_loads_fn where
  "sample_loads s =
     (if s = ''{}'' then Inr (PyDict [])
      else if 1000 \<le> length (takeWhile (\<lambda>c. c = CHR ''['') s)
      then Inl (OtherError ''maximum recursion depth exceeded'')
      else Inl (JSONDecodeError ''Expecting value''))"

definition deep_text :: string where
  "deep_text = replicate 1000 (CHR ''['') @ ''{}''"

definition deep_llm :: llm_fn where
  "deep_llm p kwargs = Inr deep_text"

section \<open>The language-model tools (app/tools)\<close>

text \<open>
  Each tool function returns the lines it passed to \<open>logger.error\<close> together with its
  value. Calls of \<open>logger.info\<close> are left out: they change no result.
\<close>

subsection \<open>EmailSummarizer (summarizer.py)\<close>





subsection \<open>TicketRouter (ticket_router.py)\<close>

definition categorization_fallback :: "pyval \<Rightarrow> pyval \<Rightarrow> pyval \<Rightarrow> (string \<times> pyval) list" where
  "categorization_fallback title priority category =
     [(''title'', title),
      (''category'', py_or category (PyStr ''Unknown'')),
      (''priority'', py_or priority (PyStr ''Medium'')),
      (''department'', PyStr ''Support'')]"

definition TicketRouter_run_categorization ::
  "llm_fn \<Rightarrow> json_loads_fn \<Rightarrow> pyval \<Rightarrow> pyval \<Rightarrow> pyval \<Rightarrow> pyval \<Rightarrow> pyval
     \<Rightarrow> string list \<times> pyval" where
  "TicketRouter_run_categorization llm json_loads title description customer_id priority category =
     (case llm CategorizationPrompt
             [(''title'', title),
              (''description'', description),
              (''customer_id'', py_or customer_id (PyStr ''N/A'')),
              (''priority'', py_or priority (PyStr ''Not specified'')),
              (''category'', py_or category (PyStr ''Not specified''))] of
        Inr content \<Rightarrow>
          (case extract_json json_loads content of
             Inr result \<Rightarrow> ([], result)
           | Inl json_error \<Rightarrow>
               ([''Error parsing ticket categorization JSON: '' @ str_exn json_error],
                PyDict (categorization_fallback title priority category
                  @ [(''raw_response'', PyStr content),
                     (''error'', PyStr ''Failed to parse structured categorization'')])))
      | Inl e \<Rightarrow>
          (let error_msg = ''Error categorizing ticket: '' @ str_exn e
           in ([error_msg],
               PyDict (categorization_fallback title priority category
                 @ [(''error'', PyStr error_msg)]))))"

text \<open>The context line: \<open>"None"\<close> unless \<open>context and len(context) > 0\<close>.\<close>

definition dumps_or_none :: "json_dumps_fn \<Rightarrow> pyval \<Rightarrow> exn + string" where
  "dumps_or_none json_dumps context =
     (if truthy context then
        (case py_len context of
           Inl e \<Rightarrow> Inl e
         | Inr n \<Rightarrow> if 0 < n then json_dumps context else Inr ''None'')
      else Inr ''None'')"

definition routing_fallback :: "(string \<times> pyval) list" where
  "routing_fallback =
     [(''department'', PyStr ''Support''),
      (''priority'', PyStr ''Medium''),
      (''category'', PyStr ''General'')]"

definition TicketRouter_run_routing_body ::
  "llm_fn \<Rightarrow> json_dumps_fn \<Rightarrow> pyval \<Rightarrow> pyval \<Rightarrow> pyval \<Rightarrow> exn + string" where
  "TicketRouter_run_routing_body llm json_dumps query customer_id context =
     (case dumps_or_none json_dumps context of
        Inl e \<Rightarrow> Inl e
      | Inr context_str \<Rightarrow>
          llm RoutingPrompt
            [(''query'', query),
             (''customer_id'', py_or customer_id (PyStr ''N/A'')),
             (''context'', PyStr context_str)])"

definition TicketRouter_run_routing ::
  "llm_fn \<Rightarrow> json_loads_fn \<Rightarrow> json_dumps_fn \<Rightarrow> pyval \<Rightarrow> pyval \<Rightarrow> pyval
     \<Rightarrow> string list \<times> pyval" where
  "TicketRouter_run_routing llm json_loads json_dumps query customer_id context =
     (case TicketRouter_run_routing_body llm json_dumps query customer_id context of
        Inr content \<Rightarrow>
          (case extract_json json_loads content of
             Inr result \<Rightarrow> ([], result)
           | Inl json_error \<Rightarrow>
               ([''Error parsing query routing JSON: '' @ str_exn json_error],
                PyDict (routing_fallback
                  @ [(''raw_response'', PyStr content),
                     (''error'', PyStr ''Failed to parse structured routing'')])))
      | Inl e \<Rightarrow>
          (let error_msg = ''Error routing query: '' @ str_exn e
           in ([error_msg], PyDict (routing_fallback @ [(''error'', PyStr error_msg)]))))"

text \<open>
  \<open>str.strip()\<close> removes the white space at both ends; among the ASCII characters these
  are the tab, the line feed, the vertical tab, the form feed, the carriage return, the
  four separators \<open>0x1C\<close> to \<open>0x1F\<close> and the space.
\<close>

definition is_space :: "char \<Rightarrow> bool" where
  "is_space c =
     (c \<in> set [CHR 0x09, CHR 0x0A, CHR 0x0B, CHR 0x0C, CHR 0x0D,
                CHR 0x1C, CHR 0x1D, CHR 0x1E, CHR 0x1F, CHR 0x20])"

definition strip :: "string \<Rightarrow> string" where
  "strip s = rev (dropWhile is_space (rev (dropWhile is_space s)))"

definition TicketRouter_is_support_request ::
  "llm_fn \<Rightarrow> pyval \<Rightarrow> pyval \<Rightarrow> string list \<times> bool" where
  "TicketRouter_is_support_request llm subject message =
     (case llm SupportDetectionPrompt [(''subject'', subject), (''message'', message)] of
        Inr response_content \<Rightarrow>
          (let content = lower (strip response_content);
               is_support = (str_in ''yes'' content \<and> \<not> str_in ''no'' (take 3 content))
           in ([], is_support))
      | Inl e \<Rightarrow> ([''Error detecting support request: '' @ str_exn e], True))"


definition TicketRouter_route_query ::
  "llm_fn \<Rightarrow> json_loads_fn \<Rightarrow> json_dumps_fn \<Rightarrow> (string \<times> pyval) list
     \<Rightarrow> exn + string list \<times> pyval" where
  "TicketRouter_route_query llm json_loads json_dumps query_data =
     (case getitem query_data ''query'' of Inl e \<Rightarrow> Inl e | Inr query \<Rightarrow>
        Inr (TicketRouter_run_routing llm json_loads json_dumps query
               (dict_get query_data ''customer_id'')
               (case map_of query_data ''context'' of None \<Rightarrow> PyDict [] | Some c \<Rightarrow> c)))"

subsection \<open>CRMEntryGenerator (crm_entry.py)\<close>

definition CRMEntryGenerator_run_body ::
  "llm_fn \<Rightarrow> json_dumps_fn \<Rightarrow> pyval \<Rightarrow> pyval \<Rightarrow> pyval \<Rightarrow> exn + string" where
  "CRMEntryGenerator_run_body llm json_dumps customer_name interaction_details additional_info =
     (case dumps_or_none json_dumps additional_info of
        Inl e \<Rightarrow> Inl e
      | Inr additional_info_str \<Rightarrow>
          llm CRMEntryPrompt
            [(''customer_name'', customer_name),
             (''interaction_details'', interaction_details),
             (''additional_info'', PyStr additional_info_str)])"

definition CRMEntryGenerator_run ::
  "llm_fn \<Rightarrow> json_loads_fn \<Rightarrow> json_dumps_fn \<Rightarrow> pyval \<Rightarrow> pyval \<Rightarrow> pyval
     \<Rightarrow> string list \<times> pyval" where
  "CRMEntryGenerator_run llm json_loads json_dumps customer_name interaction_details additional_info =
     (case CRMEntryGenerator_run_body llm json_dumps customer_name interaction_details
             additional_info of
        Inr content \<Rightarrow>
          (case extract_json json_loads content of
             Inr crm_entry \<Rightarrow> ([], crm_entry)
           | Inl json_error \<Rightarrow>
               ([''Error parsing CRM entry JSON: '' @ str_exn json_error],
                PyDict [(''customer_name'', customer_name),
                        (''raw_entry'', PyStr content),
                        (''error'', PyStr ''Failed to parse structured CRM entry'')]))
      | Inl e \<Rightarrow>
          (let error_msg = ''Error generating CRM entry: '' @ str_exn e
           in ([error_msg],
               PyDict [(''customer_name'', customer_name), (''error'', PyStr error_msg)])))"


text \<open>A dictionary value has the key \<open>error\<close>.\<close>

definition has_error_key :: "pyval \<Rightarrow> bool" where
  "has_error_key v = (case v of PyDict d \<Rightarrow> map_of d ''error'' \<noteq> None | _ \<Rightarrow> False)"

section \<open>The agent (app/agent.py)\<close>

text \<open>
  The agent works through its collaborators: three tools and three services. A call of
  a collaborator is recorded, with its arguments and its outcome, in a trace; so is a
  line the agent itself passes to \<open>logger.error\<close>. What a collaborator answers is a
  parameter, \<open>world\<close>, which sees the trace so far: the same call may be answered
  differently later, and any call may raise.
\<close>

datatype target =
    SummarizeEmail
  | IsSupportRequest
  | CategorizeTicket
  | CreateTicket
  | CreateCrmEntry
  | CreateEntry
  | MarkAsProcessed

datatype event =
    Called target "pyval list" "exn + pyval"
  | LogError pyval string

type_synonym world = "target \<Rightarrow> event list \<Rightarrow> pyval list \<Rightarrow> exn + pyval"

type_synonym 'a prog = "event list \<Rightarrow> (exn + 'a) \<times> event list"

definition returning :: "'a \<Rightarrow> 'a prog" where
  "returning x t = (Inr x, t)"

definition lift :: "exn + 'a \<Rightarrow> 'a prog" where
  "lift r t = (r, t)"

definition and_then :: "'a prog \<Rightarrow> ('a \<Rightarrow> 'b prog) \<Rightarrow> 'b prog" where
  "and_then m f t = (case m t of (Inl e, t') \<Rightarrow> (Inl e, t') | (Inr x, t') \<Rightarrow> f x t')"

definition call :: "world \<Rightarrow> target \<Rightarrow> pyval list \<Rightarrow> pyval prog" where
  "call world tg args t = (let r = world tg t args in (r, t @ [Called tg args r]))"

text \<open>\<open>v[k]\<close> on any value: only a dictionary can be read by a string key.\<close>

definition py_getitem :: "pyval \<Rightarrow> string \<Rightarrow> exn + pyval" where
  "py_getitem v k =
     (case v of
        PyDict d \<Rightarrow> getitem d k
      | _ \<Rightarrow> Inl (TypeError ''indices must be integers''))"

definition summarize_email ::
  "world \<Rightarrow> pyval \<Rightarrow> pyval \<Rightarrow> pyval \<Rightarrow> pyval \<Rightarrow> pyval \<Rightarrow> pyval prog" where
  "summarize_email world subject body sender date attachments =
     call world SummarizeEmail
       [PyDict [(''subject'', subject), (''body'', body), (''sender'', sender), (''date'', date),
                (''attachments'', py_or attachments (PyList []))]]"

text \<open>
  \<open>categorize_ticket\<close> formats \<open>result.get('category')\<close> into a log line after the call:
  a result that is no dictionary has no \<open>get\<close>.
\<close>

definition categorize_ticket ::
  "world \<Rightarrow> pyval \<Rightarrow> pyval \<Rightarrow> pyval \<Rightarrow> pyval \<Rightarrow> pyval \<Rightarrow> pyval prog" where
  "categorize_ticket world title description customer_id priority category =
     and_then
       (call world CategorizeTicket
          [PyDict [(''title'', title), (''description'', description),
                   (''customer_id'', customer_id), (''priority'', priority),
                   (''category'', category)]])
       (\<lambda>result. case result of
                    PyDict d \<Rightarrow> returning result
                  | _ \<Rightarrow> lift (Inl (AttributeError ''object has no attribute get'')))"

definition create_crm_entry :: "world \<Rightarrow> pyval \<Rightarrow> pyval \<Rightarrow> pyval \<Rightarrow> pyval prog" where
  "create_crm_entry world customer_name interaction_details additional_info =
     call world CreateCrmEntry
       [PyDict [(''customer_name'', customer_name),
                (''interaction_details'', interaction_details),
                (''additional_info'', py_or additional_info (PyDict []))]]"

text \<open>
  The body of the \<open>try\<close> in the loop of \<open>process_email_batch\<close>, in three parts: up to the
  detection, the block under the \<open>if\<close>, and the rest. Every \<open>email[k]\<close> is a read that
  can raise; arguments are evaluated from left to right before a call. \<open>fmt\<close> is the
  text an f-string inserts for a value.
\<close>

definition ticket_block :: "world \<Rightarrow> (string \<times> pyval) list \<Rightarrow> unit prog" where
  "ticket_block world email =
     and_then (lift (getitem email ''subject'')) (\<lambda>title.
     and_then (lift (getitem email ''body'')) (\<lambda>description.
     and_then (categorize_ticket world title description (dict_get email ''customer_id'')
                 PyNone PyNone) (\<lambda>ticket_data.
     and_then (lift (getitem email ''subject'')) (\<lambda>title'.
     and_then (lift (getitem email ''body'')) (\<lambda>description'.
     and_then (lift (py_getitem ticket_data ''category'')) (\<lambda>category.
     and_then (lift (py_getitem ticket_data ''priority'')) (\<lambda>priority.
     and_then (call world CreateTicket
                 [title', description', category, priority, dict_get email ''customer_id''])
       (\<lambda>_. returning ()))))))))"

definition entry_block ::
  "world \<Rightarrow> (pyval \<Rightarrow> string) \<Rightarrow> (string \<times> pyval) list \<Rightarrow> pyval \<Rightarrow> unit prog" where
  "entry_block world fmt email summary =
     and_then (lift (getitem email ''sender'')) (\<lambda>customer_name.
     and_then (lift (getitem email ''subject'')) (\<lambda>subject.
     and_then (lift (getitem email ''id'')) (\<lambda>email_id.
     and_then (create_crm_entry world customer_name
                 (PyStr (''Email: '' @ fmt subject @ [CHR 0x0A, CHR 0x0A] @ ''Summary: ''
                           @ fmt summary))
                 (PyDict [(''email_id'', email_id)])) (\<lambda>crm_entry.
     and_then (call world CreateEntry [crm_entry]) (\<lambda>_.
     and_then (lift (getitem email ''id'')) (\<lambda>email_id'.
     and_then (call world MarkAsProcessed [email_id'])
       (\<lambda>_. returning ())))))))"

definition process_email ::
  "world \<Rightarrow> (pyval \<Rightarrow> string) \<Rightarrow> (string \<times> pyval) list \<Rightarrow> unit prog" where
  "process_email world fmt email =
     and_then (lift (getitem email ''subject'')) (\<lambda>subject.
     and_then (lift (getitem email ''body'')) (\<lambda>body.
     and_then (lift (getitem email ''sender'')) (\<lambda>sender.
     and_then (lift (getitem email ''date'')) (\<lambda>date.
     and_then (summarize_email world subject body sender date
                 (dict_get email ''attachments'')) (\<lambda>summary.
     and_then (lift (getitem email ''subject'')) (\<lambda>subject'.
     and_then (lift (getitem email ''body'')) (\<lambda>body'.
     and_then (call world IsSupportRequest [subject', body']) (\<lambda>support.
     and_then (if truthy support then ticket_block world email else returning ())
       (\<lambda>_. entry_block world fmt email summary)))))))))"

text \<open>
  The loop of \<open>process_email_batch\<close> over the fetched e-mails: the handler logs the
  exception with \<open>email.get('id')\<close> and the loop goes on.
\<close>

fun process_email_batch ::
  "world \<Rightarrow> (pyval \<Rightarrow> string) \<Rightarrow> (string \<times> pyval) list list \<Rightarrow> event list \<Rightarrow> event list" where
  "process_email_batch world fmt [] t = t"
| "process_email_batch world fmt (email # emails) t =
     (case process_email world fmt email t of
        (Inr _, t') \<Rightarrow> process_email_batch world fmt emails t'
      | (Inl e, t') \<Rightarrow>
          process_email_batch world fmt emails
            (t' @ [LogError (dict_get email ''id'') (str_exn e)]))"




text \<open>
  The order of the steps in the words of the description: summary, detection, then
  categorization and ticket when the detection said so, then the CRM entry, its
  submission, and the mark.
\<close>

definition expected_order :: "bool \<Rightarrow> target list" where
  "expected_order support =
     [SummarizeEmail, IsSupportRequest]
     @ (if support then [CategorizeTicket, CreateTicket] else [])
     @ [CreateCrmEntry, CreateEntry, MarkAsProcessed]"

fun targets :: "event list \<Rightarrow> target list" where
  "targets [] = []"
| "targets (Called tg args r # evs) = tg # targets evs"
| "targets (LogError i m # evs) = targets evs"

fun detection_true :: "event list \<Rightarrow> bool" where
  "detection_true [] = False"
| "detection_true (Called IsSupportRequest args (Inr v) # evs) = (truthy v \<or> detection_true evs)"
| "detection_true (ev # evs) = detection_true evs"

fun is_log :: "event \<Rightarrow> bool" where
  "is_log (LogError i m) = True"
| "is_log (Called tg args r) = False"

text \<open>The trace after the first \<open>i\<close> e-mails of a batch.\<close>

definition trace_after ::
  "world \<Rightarrow> (pyval \<Rightarrow> string) \<Rightarrow> (string \<times> pyval) list list \<Rightarrow> event list \<Rightarrow> nat \<Rightarrow> event list" where
  "trace_after world fmt emails t i = process_email_batch world fmt (take i emails) t"

section \<open>Strings: the substring test\<close>

lemma starts_with_iff: "starts_with hay needle \<longleftrightarrow> prefix needle hay"
  by (induction hay needle rule: starts_with.induct) auto

lemma str_in_iff: "str_in needle hay \<longleftrightarrow> sublist needle hay"
  by (induction hay) (auto simp: starts_with_iff sublist_Cons_right)

section \<open>The CRM mock service\<close>

text \<open>
  C7. \<open>CRMService.get_customer\<close> returns the canned record for each of the four known
  identifiers and \<open>None\<close> for every other one; a returned record carries the identifier
  asked for, and the body of the \<open>try\<close> raises for no identifier.
\<close>

theorem get_customer_canned:
  "get_customer ''CUST12345'' = Some customer_CUST12345
   \<and> get_customer ''CUST67890'' = Some customer_CUST67890
   \<and> get_customer ''CUST24680'' = Some customer_CUST24680
   \<and> get_customer ''CUST13579'' = Some customer_CUST13579
   \<and> (customer_id \<notin> {''CUST12345'', ''CUST67890'', ''CUST24680'', ''CUST13579''}
        \<longrightarrow> get_customer customer_id = None)
   \<and> (\<forall>r. get_customer customer_id = Some r \<longrightarrow> map_of r ''id'' = Some (PyStr customer_id))
   \<and> (\<forall>c e. get_customer_body c \<noteq> Inl e)"
  by (auto simp: get_customer_def get_customer_body_def customer_CUST12345_def
      customer_CUST67890_def customer_CUST24680_def customer_CUST13579_def)

theorem get_customer_canned_witness:
  "''CUST00000'' \<notin> {''CUST12345'', ''CUST67890'', ''CUST24680'', ''CUST13579''}
   \<and> get_customer ''CUST00000'' = None
   \<and> get_customer ''CUST13579'' = Some customer_CUST13579"
  using get_customer_canned [of "''CUST00000''"] by simp

lemma mock_customers_fields:
  "c \<in> set mock_customers \<Longrightarrow>
     \<exists>n m k. map_of c ''name'' = Some (PyStr n) \<and> map_of c ''email'' = Some (PyStr m)
       \<and> map_of c ''company'' = Some (PyStr k)"
  by (auto simp: mock_customers_def)

lemma customer_matches_fields:
  assumes "map_of c ''name'' = Some (PyStr n)" "map_of c ''email'' = Some (PyStr m)"
    "map_of c ''company'' = Some (PyStr k)"
  shows "customer_matches (lower q) c = Inr (entry_matches q c)"
  using assms
  by (simp add: customer_matches_def field_lower_def getitem_def entry_matches_def
      field_contains_def str_in_iff)

lemma search_loop_filter:
  assumes "\<forall>c \<in> set cs. \<exists>n m k. map_of c ''name'' = Some (PyStr n)
       \<and> map_of c ''email'' = Some (PyStr m) \<and> map_of c ''company'' = Some (PyStr k)"
  shows "search_loop (lower q) cs acc = Inr (acc @ filter (entry_matches q) cs)"
  using assms
proof (induction cs arbitrary: acc)
  case Nil
  then show ?case by simp
next
  case (Cons c cs)
  then obtain n m k where f: "map_of c ''name'' = Some (PyStr n)"
    "map_of c ''email'' = Some (PyStr m)" "map_of c ''company'' = Some (PyStr k)"
    by auto
  have "customer_matches (lower q) c = Inr (entry_matches q c)"
    by (rule customer_matches_fields [OF f])
  with Cons show ?case by simp
qed

lemma search_customers_filter: "search_customers q = filter (entry_matches q) mock_customers"
  using search_loop_filter [of mock_customers q "[]"] mock_customers_fields
  by (simp add: search_customers_def)

lemma entry_matches_empty: "c \<in> set mock_customers \<Longrightarrow> entry_matches [] c"
  using mock_customers_fields [of c]
  by (auto simp: entry_matches_def field_contains_def lower_def)

text \<open>
  C10. \<open>CRMService.search_customers\<close> returns exactly the entries of its four-entry
  catalog whose name, e-mail address or company, lowered, contains the lowered query, in
  catalog order; two queries that differ in case only give the same result, and the empty
  query gives the whole catalog.
\<close>

theorem search_customers_spec:
  "search_customers query = filter (entry_matches query) mock_customers
   \<and> search_customers [] = mock_customers
   \<and> length mock_customers = 4
   \<and> (lower query = lower query' \<longrightarrow> search_customers query = search_customers query')"
proof -
  have a: "search_customers query = filter (entry_matches query) mock_customers"
    by (rule search_customers_filter)
  have "filter (entry_matches []) mock_customers = mock_customers"
    using entry_matches_empty by (simp add: filter_id_conv)
  then have b: "search_customers [] = mock_customers"
    by (simp add: search_customers_filter)
  have c: "length mock_customers = 4"
    by (simp add: mock_customers_def)
  have d: "lower query = lower query' \<longrightarrow> search_customers query = search_customers query'"
    by (simp add: search_customers_def)
  show ?thesis using a b c d by blast
qed

theorem search_customers_spec_witness:
  "lower ''SMITH'' = lower ''smith''
   \<and> search_customers ''SMITH'' = search_customers ''smith''
   \<and> search_customers ''smith'' = [hd mock_customers]"
proof -
  have l: "lower ''SMITH'' = lower ''smith''"
    by (simp add: lower_def lower_char_def)
  have r: "search_customers ''smith'' = [hd mock_customers]"
    by (simp add: search_customers_def lower_def lower_char_def mock_customers_def
        customer_matches_def field_lower_def getitem_def)
  have "lower ''SMITH'' = lower ''smith''
          \<longrightarrow> search_customers ''SMITH'' = search_customers ''smith''"
    using search_customers_spec [of "''SMITH''" "''smith''"] by blast
  then show ?thesis using l r by blast
qed

section \<open>Conversation history\<close>

lemma relevant_loop_filter:
  "relevant_loop cid ms acc
     = acc @ filter (\<lambda>m. dict_get (additional_kwargs m) ''customer_id'' = PyStr cid) ms"
  by (induction ms arbitrary: acc) auto

lemma slice_from_last:
  "0 < n \<Longrightarrow> slice_from xs (- n) = drop (length xs - nat n) xs"
  by (auto simp: slice_from_def max_def nat_diff_distrib' intro!: arg_cong[where f="\<lambda>k. drop k xs"])

text \<open>
  C8. For a positive \<open>max_messages\<close>, \<open>get_relevant_history\<close> returns at most that many
  messages. Without a customer identifier (\<open>None\<close> or the empty string) they are the last
  \<open>max_messages\<close> stored messages, in order, all of them when fewer are stored. With one,
  every returned message is a stored message whose \<open>additional_kwargs\<close> carry that
  identifier, and the result is the tail of the stored messages that carry it.
\<close>

theorem get_relevant_history_spec:
  assumes "0 < max_messages"
  shows "length (get_relevant_history s customer_id max_messages) \<le> nat max_messages
   \<and> (customer_id = None \<or> customer_id = Some [] \<longrightarrow>
        get_relevant_history s customer_id max_messages
          = drop (length (messages s) - nat max_messages) (messages s)
        \<and> suffix (get_relevant_history s customer_id max_messages) (messages s)
        \<and> length (get_relevant_history s customer_id max_messages)
            = min (nat max_messages) (length (messages s)))
   \<and> (\<forall>cid. customer_id = Some cid \<and> cid \<noteq> [] \<longrightarrow>
        (\<forall>m \<in> set (get_relevant_history s customer_id max_messages).
            m \<in> set (messages s) \<and> dict_get (additional_kwargs m) ''customer_id'' = PyStr cid)
        \<and> suffix (get_relevant_history s customer_id max_messages)
             (filter (\<lambda>m. dict_get (additional_kwargs m) ''customer_id'' = PyStr cid) (messages s)))"
proof -
  have len: "\<And>xs :: message list. length (slice_from xs (- max_messages)) \<le> nat max_messages"
    using assms by (simp add: slice_from_last)
  have a: "length (get_relevant_history s customer_id max_messages) \<le> nat max_messages"
    using len by (simp add: get_relevant_history_def Let_def split: option.splits)
  have b: "customer_id = None \<or> customer_id = Some [] \<longrightarrow>
        get_relevant_history s customer_id max_messages
          = drop (length (messages s) - nat max_messages) (messages s)
        \<and> suffix (get_relevant_history s customer_id max_messages) (messages s)
        \<and> length (get_relevant_history s customer_id max_messages)
            = min (nat max_messages) (length (messages s))"
    using assms by (auto simp: get_relevant_history_def Let_def slice_from_last suffix_drop)
  have c: "\<forall>cid. customer_id = Some cid \<and> cid \<noteq> [] \<longrightarrow>
        (\<forall>m \<in> set (get_relevant_history s customer_id max_messages).
            m \<in> set (messages s) \<and> dict_get (additional_kwargs m) ''customer_id'' = PyStr cid)
        \<and> suffix (get_relevant_history s customer_id max_messages)
             (filter (\<lambda>m. dict_get (additional_kwargs m) ''customer_id'' = PyStr cid) (messages s))"
    using assms
    by (auto simp: get_relevant_history_def Let_def slice_from_last relevant_loop_filter suffix_drop
        dest!: in_set_dropD)
  show ?thesis using a b c by blast
qed

theorem get_relevant_history_spec_witness:
  "(0::int) < 2
   \<and> get_relevant_history
         \<lparr>messages = [\<lparr>mtype = HumanMessage, mcontent = ''a'', additional_kwargs = []\<rparr>,
                       \<lparr>mtype = AIMessage, mcontent = ''b'', additional_kwargs = []\<rparr>,
                       \<lparr>mtype = HumanMessage, mcontent = ''c'', additional_kwargs = []\<rparr>],
          customer_contexts = [], memory_file = NoFile, error_log = []\<rparr> None 2
       = [\<lparr>mtype = AIMessage, mcontent = ''b'', additional_kwargs = []\<rparr>,
          \<lparr>mtype = HumanMessage, mcontent = ''c'', additional_kwargs = []\<rparr>]"
proof -
  have h: "(0::int) < 2" by simp
  show ?thesis
    using get_relevant_history_spec [OF h,
        of "\<lparr>messages = [\<lparr>mtype = HumanMessage, mcontent = ''a'', additional_kwargs = []\<rparr>,
                       \<lparr>mtype = AIMessage, mcontent = ''b'', additional_kwargs = []\<rparr>,
                       \<lparr>mtype = HumanMessage, mcontent = ''c'', additional_kwargs = []\<rparr>],
          customer_contexts = [], memory_file = NoFile, error_log = []\<rparr>" None]
    by simp
qed

section \<open>Support-request detection\<close>

text \<open>
  C9. When the call of the language model in \<open>is_support_request\<close> raises, the function
  logs the exception and returns \<open>True\<close>: it returns a boolean, not an error payload.
\<close>

theorem is_support_request_default:
  "llm SupportDetectionPrompt [(''subject'', subject), (''message'', message)] = Inl e
   \<Longrightarrow> TicketRouter_is_support_request llm subject message
         = ([''Error detecting support request: '' @ str_exn e], True)"
  by (simp add: TicketRouter_is_support_request_def)


theorem is_support_request_default_witness:
  "TicketRouter_is_support_request (\<lambda>p a. Inl (OtherError ''timeout'')) (PyStr ''s'') (PyStr ''m'')
     = ([''Error detecting support request: timeout''], True)"
  using is_support_request_default
    [of "\<lambda>p a. Inl (OtherError ''timeout'')" "PyStr ''s''" "PyStr ''m''" "OtherError ''timeout''"]
  by simp

section \<open>Extraction of JSON from a response\<close>

lemma find_from_eq:
  "find_from c s i = (if c \<in> set s then i + int (length (takeWhile (\<lambda>x. x \<noteq> c) s)) else - 1)"
  by (induction s arbitrary: i) auto

lemma rfind_from_eq:
  "rfind_from c s i found =
     (if c \<in> set s then i + int (length s) - 1 - int (length (takeWhile (\<lambda>x. x \<noteq> c) (rev s)))
      else found)"
proof (induction s arbitrary: i found)
  case Nil
  then show ?case by simp
next
  case (Cons x xs)
  show ?case
  proof (cases "c \<in> set xs")
    case True
    then have "takeWhile (\<lambda>x. x \<noteq> c) (rev xs @ [x]) = takeWhile (\<lambda>x. x \<noteq> c) (rev xs)"
      by (simp add: takeWhile_append1)
    with True Cons show ?thesis by simp
  next
    case False
    then have "takeWhile (\<lambda>x. x \<noteq> c) (rev xs @ [x]) = rev xs @ takeWhile (\<lambda>x. x \<noteq> c) [x]"
      by (intro takeWhile_append2) auto
    with False Cons show ?thesis by auto
  qed
qed

lemma length_takeWhile_less:
  "x \<in> set xs \<Longrightarrow> \<not> P x \<Longrightarrow> length (takeWhile P xs) < length xs"
  by (induction xs) auto

lemma rev_dropWhile_rev:
  "rev (dropWhile P (rev xs)) = take (length xs - length (takeWhile P (rev xs))) xs"
proof -
  have "dropWhile P (rev xs) = drop (length (takeWhile P (rev xs))) (rev xs)"
    by (simp add: dropWhile_eq_drop)
  then show ?thesis by (simp add: rev_drop)
qed

lemma slice_brace_span:
  assumes "braces_present s"
  shows "str_find s (CHR ''{'') \<noteq> - 1" "str_rfind s (CHR ''}'') \<noteq> - 1"
    "slice s (str_find s (CHR ''{'')) (str_rfind s (CHR ''}'') + 1) = brace_span s"
proof -
  let ?P = "\<lambda>c. c \<noteq> CHR ''{''" and ?Q = "\<lambda>c. c \<noteq> CHR ''}''"
  let ?a = "length (takeWhile ?P s)"
  let ?rest = "dropWhile ?P s"
  from assms have cl: "CHR ''}'' \<in> set ?rest" by (simp add: braces_present_def)
  have op: "CHR ''{'' \<in> set s"
  proof (rule ccontr)
    assume "CHR ''{'' \<notin> set s"
    then have "\<forall>x \<in> set s. ?P x" by auto
    then have "?rest = []" by (simp only: dropWhile_eq_Nil_conv)
    with cl show False by simp
  qed
  from cl have cls: "CHR ''}'' \<in> set s" by (meson set_dropWhileD)
  have s: "s = takeWhile ?P s @ ?rest" by simp
  have "rev s = rev ?rest @ rev (takeWhile ?P s)" by (metis rev_append s)
  moreover have "CHR ''}'' \<in> set (rev ?rest)" using cl by simp
  ultimately have tw: "takeWhile ?Q (rev s) = takeWhile ?Q (rev ?rest)"
    by (simp add: takeWhile_append1)
  have le: "length (takeWhile ?Q (rev ?rest)) < length ?rest"
    using length_takeWhile_less [of "CHR ''}''" "rev ?rest" ?Q] cl by simp
  have lr: "length ?rest = length s - ?a" by (simp add: dropWhile_eq_drop)
  have ale: "?a \<le> length s" by (simp add: length_takeWhile_le)
  show "str_find s (CHR ''{'') \<noteq> - 1" using op by (simp add: str_find_def find_from_eq)
  have "length (takeWhile ?Q (rev s)) < length s"
    using length_takeWhile_less [of "CHR ''}''" "rev s" ?Q] cls by simp
  then show "str_rfind s (CHR ''}'') \<noteq> - 1"
    using cls by (simp add: str_rfind_def rfind_from_eq)
  have f: "str_find s (CHR ''{'') = int ?a" using op by (simp add: str_find_def find_from_eq)
  have r: "str_rfind s (CHR ''}'') + 1 = int (length s) - int (length (takeWhile ?Q (rev ?rest)))"
    using cls tw by (simp add: str_rfind_def rfind_from_eq)
  have "brace_span s = take (length ?rest - length (takeWhile ?Q (rev ?rest))) ?rest"
    by (simp add: brace_span_def rev_dropWhile_rev)
  also have "\<dots> = take (length ?rest - length (takeWhile ?Q (rev ?rest))) (drop ?a s)"
    by (simp add: dropWhile_eq_drop)
  finally have bs: "brace_span s = take (length ?rest - length (takeWhile ?Q (rev ?rest))) (drop ?a s)" .
  let ?k = "length (takeWhile ?Q (rev ?rest))"
  have n: "nat (int (length s) - int ?k - int ?a) = length ?rest - ?k"
    using le lr ale by linarith
  have pos: "\<not> int (length s) - int ?k \<le> int ?a"
    using le lr ale by linarith
  have "slice s (int ?a) (int (length s) - int ?k)
          = take (nat (int (length s) - int ?k - int ?a)) (drop (nat (int ?a)) s)"
    unfolding slice_def using pos by (simp only: if_False)
  also have "\<dots> = take (length ?rest - ?k) (drop ?a s)"
    by (simp only: n nat_int)
  finally show "slice s (str_find s (CHR ''{'')) (str_rfind s (CHR ''}'') + 1) = brace_span s"
    by (simp only: f r bs)
qed

lemma slice_no_span:
  assumes "\<not> braces_present s" "str_find s (CHR ''{'') \<noteq> - 1" "str_rfind s (CHR ''}'') \<noteq> - 1"
  shows "slice s (str_find s (CHR ''{'')) (str_rfind s (CHR ''}'') + 1) = []"
proof -
  let ?P = "\<lambda>c. c \<noteq> CHR ''{''" and ?Q = "\<lambda>c. c \<noteq> CHR ''}''"
  let ?a = "length (takeWhile ?P s)"
  let ?rest = "dropWhile ?P s"
  from assms(2) have op: "CHR ''{'' \<in> set s"
    by (auto simp: str_find_def find_from_eq split: if_splits)
  from assms(3) have cls: "CHR ''}'' \<in> set s"
    by (auto simp: str_rfind_def rfind_from_eq split: if_splits)
  from assms(1) have ncl: "CHR ''}'' \<notin> set ?rest" by (simp add: braces_present_def)
  have s: "s = takeWhile ?P s @ ?rest" by simp
  have "rev s = rev ?rest @ rev (takeWhile ?P s)" by (metis rev_append s)
  moreover have "takeWhile ?Q (rev ?rest @ rev (takeWhile ?P s))
      = rev ?rest @ takeWhile ?Q (rev (takeWhile ?P s))"
    using ncl by (intro takeWhile_append2) auto
  ultimately have "takeWhile ?Q (rev s) = rev ?rest @ takeWhile ?Q (rev (takeWhile ?P s))"
    by simp
  then have ge: "length ?rest \<le> length (takeWhile ?Q (rev s))" by simp
  have lr: "length ?rest = length s - ?a" by (simp add: dropWhile_eq_drop)
  have ale: "?a \<le> length s" by (simp add: length_takeWhile_le)
  have f: "str_find s (CHR ''{'') = int ?a" using op by (simp add: str_find_def find_from_eq)
  have r: "str_rfind s (CHR ''}'') + 1 = int (length s) - int (length (takeWhile ?Q (rev s)))"
    using cls by (simp add: str_rfind_def rfind_from_eq)
  have "int (length s) - int (length (takeWhile ?Q (rev s))) \<le> int ?a"
    using ge lr ale by linarith
  then show ?thesis by (simp only: f r slice_def if_True)
qed

lemma fence_close_not_Nil: "fence_close \<noteq> []"
  by (simp add: fence_close_def)

lemma lazy_group_None: "lazy_group r = None \<longleftrightarrow> \<not> sublist fence_close r"
  by (induction r) (auto simp: starts_with_iff sublist_Cons_right fence_close_not_Nil)

lemma not_sublist_butlast: "xs \<noteq> [] \<Longrightarrow> \<not> sublist xs (butlast xs)"
proof
  assume "xs \<noteq> []" "sublist xs (butlast xs)"
  then obtain ps ss where "butlast xs = ps @ xs @ ss" by (auto simp: sublist_def)
  then have "length (butlast xs) = length (ps @ xs @ ss)" by simp
  then have e: "length xs - 1 = length ps + length xs + length ss" by simp
  have p: "0 < length xs" using \<open>xs \<noteq> []\<close> by simp
  from e p show False by arith
qed

lemma lazy_group_Some:
  "lazy_group r = Some g \<Longrightarrow>
     \<exists>post. r = g @ fence_close @ post \<and> \<not> sublist fence_close (g @ butlast fence_close)"
proof (induction r arbitrary: g)
  case Nil
  then show ?case by simp
next
  case (Cons c cs)
  show ?case
  proof (cases "prefix fence_close (c # cs)")
    case True
    with Cons.prems have "g = []" by (simp add: starts_with_iff)
    with True show ?thesis
      by (auto simp: prefix_def not_sublist_butlast fence_close_not_Nil)
  next
    case False
    with Cons.prems obtain g' where g': "lazy_group cs = Some g'" "g = c # g'"
      by (auto simp: starts_with_iff)
    from Cons.IH [OF g'(1)] obtain post where
      post: "cs = g' @ fence_close @ post" "\<not> sublist fence_close (g' @ butlast fence_close)"
      by blast
    have "\<not> prefix fence_close (c # g' @ butlast fence_close)"
    proof
      assume "prefix fence_close (c # g' @ butlast fence_close)"
      moreover have "fence_close = butlast fence_close @ [last fence_close]"
        by (simp add: fence_close_not_Nil)
      then have "c # cs = (c # g' @ butlast fence_close) @ (last fence_close # post)"
        using post(1) by (metis append.assoc append_Cons append_Nil)
      then have "prefix (c # g' @ butlast fence_close) (c # cs)"
        unfolding prefix_def by blast
      ultimately have "prefix fence_close (c # cs)" by (rule prefix_order.trans)
      with False show False by simp
    qed
    with post g' show ?thesis by (auto simp: sublist_Cons_right)
  qed
qed

lemma match_at_None:
  "match_at s = None \<longleftrightarrow> \<not> (\<exists>g post. s = fence_open @ g @ fence_close @ post)"
proof (cases "prefix fence_open s")
  case True
  then obtain r where r: "s = fence_open @ r" by (auto simp: prefix_def)
  have "lazy_group r = None \<longleftrightarrow> \<not> (\<exists>g post. r = g @ fence_close @ post)"
    by (auto simp: lazy_group_None sublist_def)
  with r show ?thesis by (simp add: match_at_def starts_with_iff)
next
  case False
  then show ?thesis by (auto simp: match_at_def starts_with_iff)
qed

lemma re_search_None:
  "re_search s = None \<longleftrightarrow> \<not> (\<exists>pre g post. s = pre @ fence_open @ g @ fence_close @ post)"
proof (induction s)
  case Nil
  then show ?case by (simp add: fence_open_def)
next
  case (Cons c cs)
  have "(\<exists>pre g post. c # cs = pre @ fence_open @ g @ fence_close @ post)
     \<longleftrightarrow> (\<exists>g post. c # cs = fence_open @ g @ fence_close @ post)
         \<or> (\<exists>pre g post. cs = pre @ fence_open @ g @ fence_close @ post)"
    (is "?L \<longleftrightarrow> ?A \<or> ?B")
  proof
    assume ?L
    then obtain pre g post where d: "c # cs = pre @ fence_open @ g @ fence_close @ post" by blast
    show "?A \<or> ?B"
    proof (cases pre)
      case Nil
      with d show ?thesis by auto
    next
      case (Cons p pre')
      with d have "cs = pre' @ fence_open @ g @ fence_close @ post" by simp
      then show ?thesis by blast
    qed
  next
    assume "?A \<or> ?B"
    then show ?L
    proof
      assume ?A
      then obtain g post where "c # cs = [] @ fence_open @ g @ fence_close @ post" by auto
      then show ?L by blast
    next
      assume ?B
      then obtain pre g post where "cs = pre @ fence_open @ g @ fence_close @ post" by blast
      then have "c # cs = (c # pre) @ fence_open @ g @ fence_close @ post" by simp
      then show ?L by blast
    qed
  qed
  with Cons match_at_None [of "c # cs"] show ?case
    by (auto split: option.splits)
qed

lemma re_search_Some:
  "re_search s = Some g \<Longrightarrow>
     \<exists>pre post. s = pre @ fence_open @ g @ fence_close @ post
        \<and> \<not> sublist fence_close (g @ butlast fence_close)
        \<and> (\<forall>pre' g' post'. s = pre' @ fence_open @ g' @ fence_close @ post'
               \<longrightarrow> length pre \<le> length pre')"
proof (induction s)
  case Nil
  then show ?case by simp
next
  case (Cons c cs)
  show ?case
  proof (cases "match_at (c # cs)")
    case (Some g0)
    with Cons.prems have g0: "g0 = g" by simp
    from Some have p: "prefix fence_open (c # cs)"
      and l: "lazy_group (drop (length fence_open) (c # cs)) = Some g0"
      by (auto simp: match_at_def starts_with_iff split: if_splits)
    from p obtain r where r: "c # cs = fence_open @ r" by (auto simp: prefix_def)
    with l have "lazy_group r = Some g" using g0 by simp
    from lazy_group_Some [OF this] obtain post where
      post: "r = g @ fence_close @ post" "\<not> sublist fence_close (g @ butlast fence_close)"
      by blast
    show ?thesis
    proof (intro exI conjI allI impI)
      show "c # cs = [] @ fence_open @ g @ fence_close @ post"
        using r post(1) by simp
      show "\<not> sublist fence_close (g @ butlast fence_close)"
        by (rule post(2))
    qed simp
  next
    case None
    with Cons.prems have "re_search cs = Some g" by simp
    from Cons.IH [OF this] obtain pre post where
      d: "cs = pre @ fence_open @ g @ fence_close @ post"
      and m: "\<not> sublist fence_close (g @ butlast fence_close)"
      and f: "\<forall>pre' g' post'. cs = pre' @ fence_open @ g' @ fence_close @ post'
               \<longrightarrow> length pre \<le> length pre'"
      by blast
    have first: "\<forall>pre' g' post'. c # cs = pre' @ fence_open @ g' @ fence_close @ post'
               \<longrightarrow> length (c # pre) \<le> length pre'"
    proof (intro allI impI)
      fix pre' g' post'
      assume e: "c # cs = pre' @ fence_open @ g' @ fence_close @ post'"
      show "length (c # pre) \<le> length pre'"
      proof (cases pre')
        case Nil
        with e have "\<exists>g post. c # cs = fence_open @ g @ fence_close @ post" by auto
        with None show ?thesis by (simp add: match_at_None)
      next
        case (Cons p pre'')
        with e have "cs = pre'' @ fence_open @ g' @ fence_close @ post'" by simp
        with f have "length pre \<le> length pre''" by blast
        with Cons show ?thesis by simp
      qed
    qed
    show ?thesis
    proof (intro exI conjI)
      show "c # cs = (c # pre) @ fence_open @ g @ fence_close @ post"
        using d by simp
      show "\<not> sublist fence_close (g @ butlast fence_close)"
        by (rule m)
      show "\<forall>pre' g' post'. c # cs = pre' @ fence_open @ g' @ fence_close @ post'
               \<longrightarrow> length (c # pre) \<le> length pre'"
        by (rule first)
    qed
  qed
qed


lemma later_stages_eq:
  assumes "json_loads [] = Inl e0"
  shows "(case (case re_search content of
             Some json_str \<Rightarrow> json_loads json_str
           | None \<Rightarrow>
               (let start_idx = str_find content (CHR ''{'');
                    end_idx = str_rfind content (CHR ''}'')
                in if start_idx \<noteq> - 1 \<and> end_idx \<noteq> - 1 then
                     json_loads (slice content start_idx (end_idx + 1))
                   else Inl (ValueError ''Could not extract valid JSON from the response'')))
          of Inr v \<Rightarrow> Some v | Inl e \<Rightarrow> None)
         = later_stages json_loads content"
proof (cases "braces_present content")
  case True
  then show ?thesis
    using slice_brace_span [OF True]
    by (simp add: later_stages_def loads_opt_def Let_def split: sum.splits option.splits)
next
  case False
  show ?thesis
  proof (cases "str_find content (CHR ''{'') \<noteq> - 1 \<and> str_rfind content (CHR ''}'') \<noteq> - 1")
    case True
    then have "slice content (str_find content (CHR ''{'')) (str_rfind content (CHR ''}'') + 1) = []"
      using slice_no_span [OF False] by simp
    with True False assms show ?thesis
      by (simp add: later_stages_def loads_opt_def Let_def split: sum.splits option.splits)
  next
    case no: False
    with False show ?thesis
      by (auto simp add: later_stages_def loads_opt_def Let_def split: sum.splits option.splits)
  qed
qed

lemma extract_json_stages_eq:
  assumes "json_loads [] = Inl e0"
  shows "(case extract_json json_loads content of Inr v \<Rightarrow> Some v | Inl e \<Rightarrow> None)
           = extraction_stages_typed json_loads content"
proof (cases "json_loads content")
  case (Inr v)
  then show ?thesis by (simp add: extract_json_def extraction_stages_typed_def)
next
  case (Inl e)
  show ?thesis
  proof (cases e)
    case (JSONDecodeError m)
    with Inl show ?thesis
      using later_stages_eq [of json_loads e0 content] assms
      by (simp add: extract_json_def extraction_stages_typed_def)
  qed (use Inl in \<open>simp_all add: extract_json_def extraction_stages_typed_def\<close>)
qed

lemma extract_json_stages_cases:
  assumes "json_loads [] = Inl e0"
  shows "(case extract_json json_loads content of Inr v \<Rightarrow> v | Inl e \<Rightarrow> d)
           = (case extraction_stages_typed json_loads content of Some v \<Rightarrow> v | None \<Rightarrow> d)"
  using extract_json_stages_eq [of json_loads e0 content] assms
  by (auto split: sum.splits option.splits)

lemma typed_stages_agree:
  "(\<forall>e. json_loads content = Inl e \<longrightarrow> is_decode_error e)
     \<Longrightarrow> extraction_stages_typed json_loads content = extraction_stages json_loads content"
  by (auto simp: extraction_stages_typed_def extraction_stages_def split: sum.splits)

lemma extract_json_other_error:
  "json_loads content = Inl e \<Longrightarrow> \<not> is_decode_error e \<Longrightarrow> extract_json json_loads content = Inl e"
  by (cases e) (simp_all add: extract_json_def)

text \<open>The sample text: no fenced block, and the braces at its end.\<close>

lemma re_search_brackets: "re_search (replicate n (CHR ''['') @ ''{}'') = None"
  by (induction n) (simp_all add: match_at_def fence_open_def)

lemma dropWhile_brackets:
  "dropWhile (\<lambda>c. c \<noteq> CHR ''{'') (replicate n (CHR ''['') @ ''{}'') = ''{}''"
  by (induction n) simp_all

lemma takeWhile_brackets:
  "takeWhile (\<lambda>c. c = CHR ''['') (replicate n (CHR ''['') @ ''{}'') = replicate n (CHR ''['')"
  by (induction n) simp_all

lemma sample_loads_deep_text:
  "sample_loads deep_text = Inl (OtherError ''maximum recursion depth exceeded'')"
proof -
  have len: "length deep_text = 1002" by (simp add: deep_text_def)
  have "deep_text \<noteq> ''{}''"
  proof
    assume "deep_text = ''{}''"
    then have "length deep_text = length ''{}''" by (rule arg_cong)
    with len show False by simp
  qed
  moreover have "length (takeWhile (\<lambda>c. c = CHR ''['') deep_text) = 1000"
    by (simp add: deep_text_def takeWhile_brackets)
  ultimately show ?thesis by (simp add: sample_loads_def)
qed

lemma later_stages_deep_text: "later_stages sample_loads deep_text = Some (PyDict [])"
  by (simp add: later_stages_def deep_text_def re_search_brackets braces_present_def
      brace_span_def dropWhile_brackets loads_opt_def sample_loads_def)

text \<open>
  C1 as stated fails. On a thousand opening brackets followed by an empty object,
  \<open>json.loads\<close> raises \<open>RecursionError\<close>: the stages as described go on to the braces
  and parse the empty object, the code leaves the block, and the tool returns its
  fallback dictionary.
\<close>

theorem recursion_error_skips_later_stages:
  "extraction_stages sample_loads deep_text = Some (PyDict [])
   \<and> extract_json sample_loads deep_text = Inl (OtherError ''maximum recursion depth exceeded'')
   \<and> snd (CRMEntryGenerator_run deep_llm sample_loads (\<lambda>v. Inr ''null'') (PyStr ''n'') (PyStr ''d'')
            PyNone)
       = PyDict [(''customer_name'', PyStr ''n''),
                 (''raw_entry'', PyStr deep_text),
                 (''error'', PyStr ''Failed to parse structured CRM entry'')]"
proof -
  have a: "extraction_stages sample_loads deep_text = Some (PyDict [])"
    by (simp add: extraction_stages_def sample_loads_deep_text later_stages_deep_text)
  have b: "extract_json sample_loads deep_text
      = Inl (OtherError ''maximum recursion depth exceeded'')"
    by (simp add: extract_json_def sample_loads_deep_text)
  have c: "snd (CRMEntryGenerator_run deep_llm sample_loads (\<lambda>v. Inr ''null'') (PyStr ''n'')
            (PyStr ''d'') PyNone)
       = PyDict [(''customer_name'', PyStr ''n''),
                 (''raw_entry'', PyStr deep_text),
                 (''error'', PyStr ''Failed to parse structured CRM entry'')]"
    by (simp add: CRMEntryGenerator_run_def CRMEntryGenerator_run_body_def dumps_or_none_def
        truthy_def deep_llm_def b)
  show ?thesis using a b c by blast
qed

text \<open>
  C1, as amended. Provided \<open>json.loads\<close> rejects the empty string, the extraction in the
  three tools is: the parse of the whole text; when that parse raises
  \<open>JSONDecodeError\<close>, the parse of the contents of the first fenced block if the text
  holds one (the leftmost opening fence, the nearest closing fence), else the parse of
  the text from the first opening brace to the last closing brace if a closing brace
  stands after the first opening one. When the parse of the whole text raises another
  exception, when the stage that applies does not parse, or when none applies, each tool
  returns its fallback dictionary, which has the key \<open>error\<close>. Where \<open>json.loads\<close> fails
  with \<open>JSONDecodeError\<close> only, these are the stages as first described.
\<close>

theorem json_extraction_stages:
  assumes "json_loads [] = Inl e0"
  shows
  "(case extract_json json_loads content of Inr v \<Rightarrow> Some v | Inl e \<Rightarrow> None)
       = extraction_stages_typed json_loads content
   \<and> ((\<forall>e. json_loads content = Inl e \<longrightarrow> is_decode_error e)
        \<longrightarrow> extraction_stages_typed json_loads content = extraction_stages json_loads content)
   \<and> (\<forall>e. json_loads content = Inl e \<and> \<not> is_decode_error e
        \<longrightarrow> extract_json json_loads content = Inl e)
   \<and> (re_search content = None
        \<longleftrightarrow> \<not> (\<exists>pre g post. content = pre @ fence_open @ g @ fence_close @ post))
   \<and> (\<forall>g. re_search content = Some g \<longrightarrow>
         (\<exists>pre post. content = pre @ fence_open @ g @ fence_close @ post
            \<and> \<not> sublist fence_close (g @ butlast fence_close)
            \<and> (\<forall>pre' g' post'. content = pre' @ fence_open @ g' @ fence_close @ post'
                   \<longrightarrow> length pre \<le> length pre')))
   \<and> (llm CategorizationPrompt
          [(''title'', title),
           (''description'', description),
           (''customer_id'', py_or customer_id (PyStr ''N/A'')),
           (''priority'', py_or priority (PyStr ''Not specified'')),
           (''category'', py_or category (PyStr ''Not specified''))] = Inr content
        \<longrightarrow> snd (TicketRouter_run_categorization llm json_loads title description customer_id
                   priority category)
            = (case extraction_stages_typed json_loads content of
                 Some v \<Rightarrow> v
               | None \<Rightarrow>
                   PyDict (categorization_fallback title priority category
                     @ [(''raw_response'', PyStr content),
                        (''error'', PyStr ''Failed to parse structured categorization'')])))
   \<and> (TicketRouter_run_routing_body llm json_dumps query customer_id context = Inr content
        \<longrightarrow> snd (TicketRouter_run_routing llm json_loads json_dumps query customer_id context)
            = (case extraction_stages_typed json_loads content of
                 Some v \<Rightarrow> v
               | None \<Rightarrow>
                   PyDict (routing_fallback
                     @ [(''raw_response'', PyStr content),
                        (''error'', PyStr ''Failed to parse structured routing'')])))
   \<and> (CRMEntryGenerator_run_body llm json_dumps customer_name interaction_details
          additional_info = Inr content
        \<longrightarrow> snd (CRMEntryGenerator_run llm json_loads json_dumps customer_name
                   interaction_details additional_info)
            = (case extraction_stages_typed json_loads content of
                 Some v \<Rightarrow> v
               | None \<Rightarrow>
                   PyDict [(''customer_name'', customer_name),
                           (''raw_entry'', PyStr content),
                           (''error'', PyStr ''Failed to parse structured CRM entry'')]))"
proof -
  have st: "\<And>c d. (case extraction_stages_typed json_loads c of Some v \<Rightarrow> v | None \<Rightarrow> d)
      = (case extract_json json_loads c of Inr v \<Rightarrow> v | Inl e \<Rightarrow> d)"
    using extract_json_stages_cases [of json_loads e0] assms by simp
  have a: "(case extract_json json_loads content of Inr v \<Rightarrow> Some v | Inl e \<Rightarrow> None)
       = extraction_stages_typed json_loads content"
    using extract_json_stages_eq [of json_loads e0 content] assms by simp
  have a1: "(\<forall>e. json_loads content = Inl e \<longrightarrow> is_decode_error e)
        \<longrightarrow> extraction_stages_typed json_loads content = extraction_stages json_loads content"
    using typed_stages_agree by blast
  have a2: "\<forall>e. json_loads content = Inl e \<and> \<not> is_decode_error e
        \<longrightarrow> extract_json json_loads content = Inl e"
    using extract_json_other_error by blast
  have b: "re_search content = None
        \<longleftrightarrow> \<not> (\<exists>pre g post. content = pre @ fence_open @ g @ fence_close @ post)"
    by (rule re_search_None)
  have c: "\<forall>g. re_search content = Some g \<longrightarrow>
         (\<exists>pre post. content = pre @ fence_open @ g @ fence_close @ post
            \<and> \<not> sublist fence_close (g @ butlast fence_close)
            \<and> (\<forall>pre' g' post'. content = pre' @ fence_open @ g' @ fence_close @ post'
                   \<longrightarrow> length pre \<le> length pre'))"
    using re_search_Some by blast
  have d: "llm CategorizationPrompt
          [(''title'', title),
           (''description'', description),
           (''customer_id'', py_or customer_id (PyStr ''N/A'')),
           (''priority'', py_or priority (PyStr ''Not specified'')),
           (''category'', py_or category (PyStr ''Not specified''))] = Inr content
        \<longrightarrow> snd (TicketRouter_run_categorization llm json_loads title description customer_id
                   priority category)
            = (case extraction_stages_typed json_loads content of
                 Some v \<Rightarrow> v
               | None \<Rightarrow>
                   PyDict (categorization_fallback title priority category
                     @ [(''raw_response'', PyStr content),
                        (''error'', PyStr ''Failed to parse structured categorization'')]))"
    by (simp add: TicketRouter_run_categorization_def st split: sum.splits)
  have e: "TicketRouter_run_routing_body llm json_dumps query customer_id context = Inr content
        \<longrightarrow> snd (TicketRouter_run_routing llm json_loads json_dumps query customer_id context)
            = (case extraction_stages_typed json_loads content of
                 Some v \<Rightarrow> v
               | None \<Rightarrow>
                   PyDict (routing_fallback
                     @ [(''raw_response'', PyStr content),
                        (''error'', PyStr ''Failed to parse structured routing'')]))"
    by (simp add: TicketRouter_run_routing_def st split: sum.splits)
  have f: "CRMEntryGenerator_run_body llm json_dumps customer_name interaction_details
          additional_info = Inr content
        \<longrightarrow> snd (CRMEntryGenerator_run llm json_loads json_dumps customer_name
                   interaction_details additional_info)
            = (case extraction_stages_typed json_loads content of
                 Some v \<Rightarrow> v
               | None \<Rightarrow>
                   PyDict [(''customer_name'', customer_name),
                           (''raw_entry'', PyStr content),
                           (''error'', PyStr ''Failed to parse structured CRM entry'')])"
    by (simp add: CRMEntryGenerator_run_def st split: sum.splits)
  show ?thesis using a a1 a2 b c d e f by blast
qed

theorem json_extraction_stages_witness:
  "sample_loads [] = Inl (JSONDecodeError ''Expecting value'')
   \<and> snd (TicketRouter_run_categorization (\<lambda>p a. Inr ''ok {} done'') sample_loads
            (PyStr ''t'') (PyStr ''d'') PyNone PyNone PyNone) = PyDict []
   \<and> has_error_key (snd (CRMEntryGenerator_run (\<lambda>p a. Inr ''} {'') sample_loads
            (\<lambda>v. Inr ''null'') (PyStr ''n'') (PyStr ''d'') PyNone))"
proof -
  have h: "sample_loads [] = Inl (JSONDecodeError ''Expecting value'')"
    by (simp add: sample_loads_def)
  have s1: "extraction_stages_typed sample_loads ''ok {} done'' = Some (PyDict [])"
    by (simp add: extraction_stages_typed_def later_stages_def loads_opt_def sample_loads_def
        braces_present_def brace_span_def match_at_def fence_open_def)
  have s2: "extraction_stages_typed sample_loads ''} {'' = None"
    by (simp add: extraction_stages_typed_def later_stages_def loads_opt_def sample_loads_def
        braces_present_def brace_span_def match_at_def fence_open_def)
  have b2: "CRMEntryGenerator_run_body (\<lambda>p a. Inr ''} {'') (\<lambda>v. Inr ''null'')
              (PyStr ''n'') (PyStr ''d'') PyNone = Inr ''} {''"
    by (simp add: CRMEntryGenerator_run_body_def dumps_or_none_def truthy_def)
  have "snd (TicketRouter_run_categorization (\<lambda>p a. Inr ''ok {} done'') sample_loads
            (PyStr ''t'') (PyStr ''d'') PyNone PyNone PyNone) = PyDict []"
    using json_extraction_stages [where json_loads = sample_loads
        and ?e0.0 = "JSONDecodeError ''Expecting value''"
        and content = "''ok {} done''" and llm = "\<lambda>p a. Inr ''ok {} done''"
        and title = "PyStr ''t''" and description = "PyStr ''d''" and customer_id = PyNone
        and priority = PyNone and category = PyNone] h s1
    by simp
  moreover have "has_error_key (snd (CRMEntryGenerator_run (\<lambda>p a. Inr ''} {'') sample_loads
            (\<lambda>v. Inr ''null'') (PyStr ''n'') (PyStr ''d'') PyNone))"
    using json_extraction_stages [where json_loads = sample_loads
        and ?e0.0 = "JSONDecodeError ''Expecting value''"
        and content = "''} {''" and llm = "\<lambda>p a. Inr ''} {''"
        and json_dumps = "\<lambda>v. Inr ''null''" and customer_name = "PyStr ''n''"
        and interaction_details = "PyStr ''d''" and additional_info = PyNone] h s2 b2
    by (simp add: has_error_key_def)
  ultimately show ?thesis using h by blast
qed



section \<open>Error payloads of the tools\<close>



section \<open>Persistence of the memory\<close>

lemma serialize_messages_eq:
  "serialize_messages ms acc
     = acc @ map role_tagged (filter (\<lambda>m. mtype m \<noteq> OtherMessage) ms)"
proof (induction ms arbitrary: acc)
  case Nil
  then show ?case by simp
next
  case (Cons m ms)
  then show ?case by (cases "mtype m") (simp_all add: role_tagged_def)
qed

lemma save_memory_state:
  "messages (save_memory write_file now s) = messages s"
  "customer_contexts (save_memory write_file now s) = customer_contexts s"
  by (simp_all add: save_memory_def Let_def split: write_outcome.splits)

lemma snapshot_save_memory:
  "snapshot t (save_memory write_file now s) = snapshot t s"
  by (simp add: snapshot_def transcript_def save_memory_state)

lemma save_memory_file:
  "memory_file (save_memory write_file now s)
     = file_after (write_file (snapshot now s)) (memory_file s) (snapshot now s)"
  by (simp add: save_memory_def snapshot_def transcript_def serialize_messages_eq file_after_def
      Let_def split: write_outcome.splits)

lemma save_memory_log:
  "error_log (save_memory write_file now s)
     = error_log s @ log_after (write_file (snapshot now s))"
  by (simp add: save_memory_def snapshot_def transcript_def serialize_messages_eq log_after_def
      Let_def split: write_outcome.splits)

lemma snapshot_read:
  "file_messages (Written (snapshot now s)) = transcript s"
  "file_contexts (Written (snapshot now s)) = map (\<lambda>(k, d). (k, PyDict d)) (customer_contexts s)"
  by (simp_all add: file_messages_def file_contexts_def snapshot_def)

lemma snapshot_ignores_file:
  "snapshot now (s\<lparr>memory_file := f, error_log := l\<rparr>) = snapshot now s"
  by (simp add: snapshot_def transcript_def)

lemma save_memory_after:
  "memory_file (save_memory write_file now s)
     = file_after (write_file (snapshot now (save_memory write_file now s))) (memory_file s)
         (snapshot now (save_memory write_file now s))
   \<and> error_log (save_memory write_file now s)
     = error_log s @ log_after (write_file (snapshot now (save_memory write_file now s)))"
  by (simp add: snapshot_save_memory save_memory_file save_memory_log)

text \<open>
  C4, as amended. After \<open>clear\<close>, after \<open>update_customer_context\<close> and after a
  \<open>save_context\<close> that returns, when the write succeeded the file holds the snapshot of
  the whole resulting state: every customer context and the whole role-tagged
  transcript, whatever the file held before; both can be read back from it. When
  \<open>open\<close> raised the file is as it was, when \<open>json.dump\<close> raised it is cut short, and
  either way one line is logged and nothing is raised.
\<close>

theorem mutations_write_whole_state:
  "(write_file (snapshot now (clear write_file now s)) = Wrote
      \<longrightarrow> memory_file (clear write_file now s) = Written (snapshot now (clear write_file now s)))
   \<and> (write_file (snapshot now
          (update_customer_context write_file stamp now customer_id context_data s)) = Wrote
      \<longrightarrow> memory_file (update_customer_context write_file stamp now customer_id context_data s)
          = Written (snapshot now
              (update_customer_context write_file stamp now customer_id context_data s)))
   \<and> (\<forall>s'. save_context write_file gio now inputs outputs s = Inr s'
          \<and> write_file (snapshot now s') = Wrote
          \<longrightarrow> memory_file s' = Written (snapshot now s'))
   \<and> memory_file (clear write_file now s)
       = file_after (write_file (snapshot now (clear write_file now s))) (memory_file s)
           (snapshot now (clear write_file now s))
   \<and> error_log (clear write_file now s)
       = error_log s @ log_after (write_file (snapshot now (clear write_file now s)))
   \<and> memory_file (update_customer_context write_file stamp now customer_id context_data s)
       = file_after
           (write_file (snapshot now
              (update_customer_context write_file stamp now customer_id context_data s)))
           (memory_file s)
           (snapshot now (update_customer_context write_file stamp now customer_id context_data s))
   \<and> error_log (update_customer_context write_file stamp now customer_id context_data s)
       = error_log s
         @ log_after (write_file (snapshot now
              (update_customer_context write_file stamp now customer_id context_data s)))
   \<and> (\<forall>s'. save_context write_file gio now inputs outputs s = Inr s'
          \<longrightarrow> memory_file s'
                = file_after (write_file (snapshot now s')) (memory_file s) (snapshot now s')
              \<and> error_log s' = error_log s @ log_after (write_file (snapshot now s')))
   \<and> snapshot now (s\<lparr>memory_file := f, error_log := l\<rparr>) = snapshot now s
   \<and> file_messages (Written (snapshot now s)) = transcript s
   \<and> file_contexts (Written (snapshot now s))
       = map (\<lambda>(k, d). (k, PyDict d)) (customer_contexts s)"
proof -
  have c: "memory_file (clear write_file now s)
       = file_after (write_file (snapshot now (clear write_file now s))) (memory_file s)
           (snapshot now (clear write_file now s))
     \<and> error_log (clear write_file now s)
       = error_log s @ log_after (write_file (snapshot now (clear write_file now s)))"
    unfolding clear_def using save_memory_after [of write_file now "s\<lparr>messages := []\<rparr>"] by simp
  have u: "memory_file (update_customer_context write_file stamp now customer_id context_data s)
       = file_after
           (write_file (snapshot now
              (update_customer_context write_file stamp now customer_id context_data s)))
           (memory_file s)
           (snapshot now (update_customer_context write_file stamp now customer_id context_data s))
     \<and> error_log (update_customer_context write_file stamp now customer_id context_data s)
       = error_log s
         @ log_after (write_file (snapshot now
              (update_customer_context write_file stamp now customer_id context_data s)))"
    unfolding update_customer_context_def Let_def
    using save_memory_after
      [of write_file now "s\<lparr>customer_contexts := cc\<rparr>" for cc]
    by simp
  have v: "\<forall>s'. save_context write_file gio now inputs outputs s = Inr s'
          \<longrightarrow> memory_file s'
                = file_after (write_file (snapshot now s')) (memory_file s) (snapshot now s')
              \<and> error_log s' = error_log s @ log_after (write_file (snapshot now s'))"
  proof (intro allI impI)
    fix s' assume "save_context write_file gio now inputs outputs s = Inr s'"
    then obtain ms where "s' = save_memory write_file now (s\<lparr>messages := ms\<rparr>)"
      by (auto simp: save_context_def split: sum.splits)
    then show "memory_file s'
                = file_after (write_file (snapshot now s')) (memory_file s) (snapshot now s')
              \<and> error_log s' = error_log s @ log_after (write_file (snapshot now s'))"
      using save_memory_after [of write_file now "s\<lparr>messages := ms\<rparr>"] by simp
  qed
  have w: "file_after Wrote a b = Written b" for a b
    by (simp add: file_after_def)
  show ?thesis
    using c u v w snapshot_ignores_file snapshot_read by metis
qed

lemma huge_int_over_limit: "digit_limit \<le> \<bar>huge_int\<bar>"
proof -
  have "(10::int) ^ 4300 \<le> 10 ^ 5000"
    by (rule power_increasing) simp_all
  moreover have "(0::int) \<le> 10 ^ 5000"
    by (rule zero_le_power) simp
  ultimately show ?thesis
    unfolding digit_limit_def huge_int_def by (simp only: abs_of_nonneg)
qed

text \<open>
  C4 as stated fails. A context that holds an integer of 5001 digits makes \<open>json.dump\<close>
  raise: the handler logs it, and the file is left cut short, not holding the state.
\<close>

theorem failed_dump_truncates_file:
  "memory_file (update_customer_context write_with_digit_limit ''t1'' ''t2'' ''CUST12345''
      [(''balance'', PyInt huge_int)] initial_memory) = Truncated
   \<and> memory_file (update_customer_context write_with_digit_limit ''t1'' ''t2'' ''CUST12345''
      [(''balance'', PyInt huge_int)] initial_memory)
     \<noteq> Written (snapshot ''t2'' (update_customer_context write_with_digit_limit ''t1'' ''t2''
          ''CUST12345'' [(''balance'', PyInt huge_int)] initial_memory))
   \<and> error_log (update_customer_context write_with_digit_limit ''t1'' ''t2'' ''CUST12345''
      [(''balance'', PyInt huge_int)] initial_memory)
     = [''Error saving memory: Exceeds the limit (4300 digits) for integer string conversion'']"
  by (simp add: update_customer_context_def save_memory_def initial_memory_def
      write_with_digit_limit_def huge_int_over_limit Let_def)

theorem mutations_write_whole_state_witness:
  "save_context write_with_digit_limit get_input_output ''t1'' [(''input'', PyStr ''hi'')]
       [(''output'', PyStr ''hello'')] initial_memory
     = Inr \<lparr>messages = [\<lparr>mtype = HumanMessage, mcontent = ''hi'', additional_kwargs = []\<rparr>,
                         \<lparr>mtype = AIMessage, mcontent = ''hello'', additional_kwargs = []\<rparr>],
            customer_contexts = [],
            memory_file = Written (PyDict
              [(''customer_contexts'', PyDict []),
               (''messages'', PyList
                  [PyDict [(''type'', PyStr ''human''), (''content'', PyStr ''hi'')],
                   PyDict [(''type'', PyStr ''ai''), (''content'', PyStr ''hello'')]]),
               (''last_updated'', PyStr ''t1'')]),
            error_log = []\<rparr>"
proof -
  have "\<forall>s'. save_context write_with_digit_limit get_input_output ''t1''
            [(''input'', PyStr ''hi'')] [(''output'', PyStr ''hello'')] initial_memory = Inr s'
          \<and> write_with_digit_limit (snapshot ''t1'' s') = Wrote
          \<longrightarrow> memory_file s' = Written (snapshot ''t1'' s')"
    using mutations_write_whole_state [where write_file = write_with_digit_limit
        and now = "''t1''" and s = initial_memory and gio = get_input_output
        and inputs = "[(''input'', PyStr ''hi'')]" and outputs = "[(''output'', PyStr ''hello'')]"]
    by blast
  then show ?thesis
    by (simp add: save_context_def initial_memory_def save_memory_def snapshot_def transcript_def
        role_tagged_def get_input_output_def write_with_digit_limit_def Let_def)
qed

lemma save_memory_quiet:
  assumes "error_log (save_memory write_file now s) = error_log s"
  shows "memory_file (save_memory write_file now s) = Written (snapshot now s)"
  using assms
  by (cases "write_file (snapshot now s)")
     (simp_all add: save_memory_log save_memory_file log_after_def file_after_def)

lemma save_memory_synced:
  assumes "error_log (save_memory write_file now s) = error_log s"
  shows "file_messages (memory_file (save_memory write_file now s))
     = transcript (save_memory write_file now s)"
  using save_memory_quiet [OF assms]
  by (simp add: snapshot_read transcript_def save_memory_state)

lemma apply_op_synced:
  assumes "file_messages (memory_file s) = transcript s"
    and "error_log (apply_op write_file gio op s) = error_log s"
  shows "file_messages (memory_file (apply_op write_file gio op s))
     = transcript (apply_op write_file gio op s)"
proof (cases op)
  case (SaveContext now i o')
  show ?thesis
  proof (cases "gio i o'")
    case (Inl e)
    with SaveContext assms(1) show ?thesis by (simp add: save_context_def)
  next
    case (Inr p)
    then obtain a b where p: "p = (a, b)" by (cases p)
    with Inr SaveContext assms(2) show ?thesis
      by (simp add: save_context_def save_memory_synced)
  qed
next
  case (UpdateCustomerContext stamp now c d)
  with assms(2) show ?thesis
    by (simp add: update_customer_context_def Let_def save_memory_synced)
next
  case (Clear now)
  with assms(2) show ?thesis
    by (simp add: clear_def save_memory_synced)
qed

lemma apply_op_transcript_prefix:
  "\<not> is_clear op \<Longrightarrow> prefix (transcript s) (transcript (apply_op write_file gio op s))"
proof (cases op)
  case (SaveContext now i o')
  then show ?thesis
    by (auto simp: save_context_def transcript_def save_memory_state split: sum.splits)
next
  case (UpdateCustomerContext stamp now c d)
  then show ?thesis
    by (simp add: update_customer_context_def Let_def transcript_def save_memory_state)
next
  case (Clear now)
  assume "\<not> is_clear op"
  with Clear show ?thesis by simp
qed

lemma run_ops_preserves:
  assumes "file_messages (memory_file s) = transcript s" "\<not> list_ex is_clear ops"
    "writes_succeed write_file gio ops s"
  shows "prefix (transcript s) (transcript (run_ops write_file gio ops s))
     \<and> file_messages (memory_file (run_ops write_file gio ops s))
         = transcript (run_ops write_file gio ops s)"
  using assms
proof (induction ops arbitrary: s)
  case Nil
  then show ?case by simp
next
  case (Cons op ops)
  let ?s = "apply_op write_file gio op s"
  from Cons.prems have nc: "\<not> is_clear op" and rest: "\<not> list_ex is_clear ops"
    and q: "error_log ?s = error_log s" and w: "writes_succeed write_file gio ops ?s"
    by simp_all
  have syn: "file_messages (memory_file ?s) = transcript ?s"
    by (rule apply_op_synced [OF Cons.prems(1) q])
  from Cons.IH [OF syn rest w]
  have p2: "prefix (transcript ?s) (transcript (run_ops write_file gio (op # ops) s))"
    and fin: "file_messages (memory_file (run_ops write_file gio (op # ops) s))
       = transcript (run_ops write_file gio (op # ops) s)"
    by simp_all
  have p1: "prefix (transcript s) (transcript ?s)"
    by (rule apply_op_transcript_prefix [OF nc])
  have "prefix (transcript s) (transcript (run_ops write_file gio (op # ops) s))"
    using p1 p2 by (rule prefix_order.trans)
  with fin show ?case by simp
qed

text \<open>
  C5, as amended. From a memory whose file holds its transcript, a run of \<open>save_context\<close>
  and \<open>update_customer_context\<close> operations in which no write fails keeps every message
  persisted before as a prefix of the persisted messages, and the file goes on holding
  the transcript. After \<open>clear\<close> the file holds no message, whether its write succeeded
  or \<open>json.dump\<close> raised.
\<close>

theorem persisted_messages_kept_without_clear:
  assumes "file_messages (memory_file s) = transcript s" "\<not> list_ex is_clear ops"
    "writes_succeed write_file gio ops s"
  shows "prefix (file_messages (memory_file s))
           (file_messages (memory_file (run_ops write_file gio ops s)))
     \<and> file_messages (memory_file (run_ops write_file gio ops s))
         = transcript (run_ops write_file gio ops s)
     \<and> (write_file (snapshot now (clear write_file now s)) = Wrote
          \<longrightarrow> file_messages (memory_file (clear write_file now s)) = [])
     \<and> (\<forall>e. write_file (snapshot now (clear write_file now s)) = DumpFailed e
          \<longrightarrow> file_messages (memory_file (clear write_file now s)) = [])"
proof -
  have f: "memory_file (clear write_file now s)
      = file_after (write_file (snapshot now (clear write_file now s))) (memory_file s)
          (snapshot now (clear write_file now s))"
    unfolding clear_def by (simp add: save_memory_file snapshot_save_memory)
  have t: "transcript (clear write_file now s) = []"
    by (simp add: clear_def transcript_def save_memory_state)
  have c1: "write_file (snapshot now (clear write_file now s)) = Wrote
          \<longrightarrow> file_messages (memory_file (clear write_file now s)) = []"
    using f t by (simp add: file_after_def snapshot_read)
  have c2: "\<forall>e. write_file (snapshot now (clear write_file now s)) = DumpFailed e
          \<longrightarrow> file_messages (memory_file (clear write_file now s)) = []"
    using f by (simp add: file_after_def file_messages_def)
  from run_ops_preserves [OF assms] assms(1) c1 c2 show ?thesis by simp
qed

text \<open>
  C5 as stated fails: after one saved turn the file holds two messages; \<open>clear\<close> then
  writes a file that holds none, and so does, without any \<open>clear\<close>, an update whose
  \<open>json.dump\<close> raises.
\<close>

theorem clear_drops_persisted_messages:
  "file_messages (memory_file
      (run_ops write_with_digit_limit get_input_output
         [SaveContext ''t1'' [(''input'', PyStr ''hi'')] [(''output'', PyStr ''hello'')]]
         initial_memory))
     = [PyDict [(''type'', PyStr ''human''), (''content'', PyStr ''hi'')],
        PyDict [(''type'', PyStr ''ai''), (''content'', PyStr ''hello'')]]
   \<and> file_messages (memory_file
      (run_ops write_with_digit_limit get_input_output
         [SaveContext ''t1'' [(''input'', PyStr ''hi'')] [(''output'', PyStr ''hello'')],
          Clear ''t2'']
         initial_memory)) = []
   \<and> \<not> prefix
        (file_messages (memory_file
          (run_ops write_with_digit_limit get_input_output
             [SaveContext ''t1'' [(''input'', PyStr ''hi'')] [(''output'', PyStr ''hello'')]]
             initial_memory)))
        (file_messages (memory_file
          (run_ops write_with_digit_limit get_input_output
             [SaveContext ''t1'' [(''input'', PyStr ''hi'')] [(''output'', PyStr ''hello'')],
              Clear ''t2'']
             initial_memory)))
   \<and> file_messages (memory_file
      (run_ops write_with_digit_limit get_input_output
         [SaveContext ''t1'' [(''input'', PyStr ''hi'')] [(''output'', PyStr ''hello'')],
          UpdateCustomerContext ''t2'' ''t3'' ''CUST12345'' [(''balance'', PyInt huge_int)]]
         initial_memory)) = []"
  by (simp add: initial_memory_def save_context_def clear_def update_customer_context_def
      save_memory_def file_messages_def get_input_output_def write_with_digit_limit_def
      huge_int_over_limit Let_def)

theorem persisted_messages_kept_without_clear_witness:
  "file_messages (memory_file initial_memory) = transcript initial_memory
   \<and> \<not> list_ex is_clear
          [SaveContext ''t1'' [(''input'', PyStr ''hi'')] [(''output'', PyStr ''hello'')],
           UpdateCustomerContext ''t2'' ''t3'' ''CUST12345'' [(''plan'', PyStr ''Enterprise'')]]
   \<and> writes_succeed write_with_digit_limit get_input_output
          [SaveContext ''t1'' [(''input'', PyStr ''hi'')] [(''output'', PyStr ''hello'')],
           UpdateCustomerContext ''t2'' ''t3'' ''CUST12345'' [(''plan'', PyStr ''Enterprise'')]]
          initial_memory
   \<and> file_messages (memory_file
      (run_ops write_with_digit_limit get_input_output
         [SaveContext ''t1'' [(''input'', PyStr ''hi'')] [(''output'', PyStr ''hello'')],
          UpdateCustomerContext ''t2'' ''t3'' ''CUST12345'' [(''plan'', PyStr ''Enterprise'')]]
         initial_memory))
     = [PyDict [(''type'', PyStr ''human''), (''content'', PyStr ''hi'')],
        PyDict [(''type'', PyStr ''ai''), (''content'', PyStr ''hello'')]]"
proof -
  let ?ops = "[SaveContext ''t1'' [(''input'', PyStr ''hi'')] [(''output'', PyStr ''hello'')],
           UpdateCustomerContext ''t2'' ''t3'' ''CUST12345'' [(''plan'', PyStr ''Enterprise'')]]"
  have h1: "file_messages (memory_file initial_memory) = transcript initial_memory"
    by (simp add: initial_memory_def file_messages_def transcript_def)
  have h2: "\<not> list_ex is_clear ?ops"
    by simp
  have h3: "writes_succeed write_with_digit_limit get_input_output ?ops initial_memory"
    by (simp add: initial_memory_def save_context_def update_customer_context_def save_memory_def
        get_input_output_def write_with_digit_limit_def Let_def)
  have t: "transcript (run_ops write_with_digit_limit get_input_output ?ops initial_memory)
     = [PyDict [(''type'', PyStr ''human''), (''content'', PyStr ''hi'')],
        PyDict [(''type'', PyStr ''ai''), (''content'', PyStr ''hello'')]]"
    by (simp add: initial_memory_def save_context_def update_customer_context_def save_memory_def
        transcript_def role_tagged_def get_input_output_def write_with_digit_limit_def Let_def)
  show ?thesis
    using persisted_messages_kept_without_clear [OF h1 h2 h3] h1 h2 h3 t
    by simp
qed

section \<open>The batch loop\<close>

lemma targets_append: "targets (a @ b) = targets a @ targets b"
  by (induction a rule: targets.induct) auto

lemma detection_true_append: "detection_true (a @ b) = (detection_true a \<or> detection_true b)"
  by (induction a rule: detection_true.induct) auto

lemma batch_append:
  "process_email_batch world fmt (xs @ ys) t
     = process_email_batch world fmt ys (process_email_batch world fmt xs t)"
  by (induction xs arbitrary: t) (auto split: prod.splits sum.splits)

lemma ticket_block_trace:
  assumes "getitem email ''subject'' = Inr s" "getitem email ''body'' = Inr b"
  shows "\<exists>new. snd (ticket_block world email t) = t @ new
           \<and> \<not> list_ex is_log new \<and> \<not> detection_true new
           \<and> (targets new = [CategorizeTicket] \<and> (\<exists>e. fst (ticket_block world email t) = Inl e)
               \<or> targets new = [CategorizeTicket, CreateTicket])"
  using assms
  by (auto simp: ticket_block_def and_then_def lift_def returning_def call_def
      categorize_ticket_def py_getitem_def Let_def split: sum.splits pyval.splits)

lemma entry_block_trace:
  "\<exists>new. snd (entry_block world fmt email summary t) = t @ new
           \<and> \<not> list_ex is_log new \<and> \<not> detection_true new
           \<and> prefix (targets new) [CreateCrmEntry, CreateEntry, MarkAsProcessed]
           \<and> ((\<exists>u. fst (entry_block world fmt email summary t) = Inr u)
                 \<longrightarrow> targets new = [CreateCrmEntry, CreateEntry, MarkAsProcessed])"
  by (auto simp: entry_block_def and_then_def lift_def returning_def call_def
      create_crm_entry_def Let_def split: sum.splits)

lemma process_email_trace:
  "\<exists>new. snd (process_email world fmt email t) = t @ new
           \<and> \<not> list_ex is_log new
           \<and> prefix (targets new) (expected_order (detection_true new))
           \<and> (CategorizeTicket \<in> set (targets new) \<longleftrightarrow> detection_true new)
           \<and> ((\<exists>u. fst (process_email world fmt email t) = Inr u)
                 \<longrightarrow> targets new = expected_order (detection_true new))"
proof (cases "\<exists>s b f d. getitem email ''subject'' = Inr s \<and> getitem email ''body'' = Inr b
    \<and> getitem email ''sender'' = Inr f \<and> getitem email ''date'' = Inr d")
  case False
  then have "process_email world fmt email t = (fst (process_email world fmt email t), t)
      \<and> (\<exists>e. fst (process_email world fmt email t) = Inl e)"
    by (auto simp: process_email_def and_then_def lift_def split: sum.splits)
  then have "snd (process_email world fmt email t) = t @ []"
      "\<not> (\<exists>u. fst (process_email world fmt email t) = Inr u)"
    by (metis snd_conv append_Nil2, auto)
  then show ?thesis
    by (intro exI [of _ "[]"]) (simp add: expected_order_def)
next
  case True
  then obtain s b f d where g: "getitem email ''subject'' = Inr s" "getitem email ''body'' = Inr b"
    "getitem email ''sender'' = Inr f" "getitem email ''date'' = Inr d"
    by blast
  let ?sum = "summarize_email world s b f d (dict_get email ''attachments'')"
  let ?e1 = "Called SummarizeEmail
      [PyDict [(''subject'', s), (''body'', b), (''sender'', f), (''date'', d),
               (''attachments'', py_or (dict_get email ''attachments'') (PyList []))]]"
  obtain r1 where r1: "?sum t = (r1, t @ [?e1 r1])"
    by (simp add: summarize_email_def call_def Let_def)
  show ?thesis
  proof (cases r1)
    case (Inl e)
    with g r1 have "process_email world fmt email t = (Inl e, t @ [?e1 r1])"
      by (simp add: process_email_def and_then_def lift_def)
    then show ?thesis
      by (intro exI [of _ "[?e1 r1]"]) (simp add: expected_order_def)
  next
    case (Inr summary)
    let ?t1 = "t @ [?e1 r1]"
    let ?r2 = "world IsSupportRequest ?t1 [s, b]"
    let ?e2 = "Called IsSupportRequest [s, b] ?r2"
    let ?t2 = "?t1 @ [?e2]"
    show ?thesis
    proof (cases ?r2)
      case (Inl e)
      with g r1 Inr have "process_email world fmt email t = (Inl e, t @ [?e1 r1, ?e2])"
        by (simp add: process_email_def and_then_def lift_def call_def Let_def)
      then show ?thesis using Inl
        by (intro exI [of _ "[?e1 r1, ?e2]"]) (simp add: expected_order_def)
    next
      case sup: (Inr support)
      show ?thesis
      proof (cases "truthy support")
        case False
        from entry_block_trace [of world fmt email summary ?t2] obtain new where
          n: "snd (entry_block world fmt email summary ?t2) = ?t2 @ new"
            "\<not> list_ex is_log new" "\<not> detection_true new"
            "prefix (targets new) [CreateCrmEntry, CreateEntry, MarkAsProcessed]"
            "(\<exists>u. fst (entry_block world fmt email summary ?t2) = Inr u)
                 \<longrightarrow> targets new = [CreateCrmEntry, CreateEntry, MarkAsProcessed]"
          by blast
        from g r1 Inr sup False
        have pe: "process_email world fmt email t = entry_block world fmt email summary ?t2"
          by (simp add: process_email_def and_then_def lift_def call_def Let_def returning_def)
        have tg: "set (targets new) \<subseteq> {CreateCrmEntry, CreateEntry, MarkAsProcessed}"
          using n(4) set_mono_prefix by fastforce
        show ?thesis
          using n False sup tg unfolding pe
          by (intro exI [of _ "[?e1 r1, ?e2] @ new"])
             (auto simp: expected_order_def targets_append detection_true_append)
      next
        case True
        from ticket_block_trace [OF g(1) g(2), of world ?t2] obtain tn where
          tn: "snd (ticket_block world email ?t2) = ?t2 @ tn"
            "\<not> list_ex is_log tn" "\<not> detection_true tn"
            "targets tn = [CategorizeTicket] \<and> (\<exists>e. fst (ticket_block world email ?t2) = Inl e)
               \<or> targets tn = [CategorizeTicket, CreateTicket]"
          by blast
        show ?thesis
        proof (cases "fst (ticket_block world email ?t2)")
          case (Inl e)
          with tn(1) have tb: "ticket_block world email ?t2 = (Inl e, ?t2 @ tn)"
            by (metis prod.collapse)
          from g r1 Inr sup True tb
          have pe: "process_email world fmt email t = (Inl e, ?t2 @ tn)"
            by (simp add: process_email_def and_then_def lift_def call_def Let_def)
          show ?thesis
            using tn True sup unfolding pe
            by (intro exI [of _ "[?e1 r1, ?e2] @ tn"])
               (auto simp: expected_order_def targets_append detection_true_append)
        next
          case (Inr u)
          with tn(1) have tb: "ticket_block world email ?t2 = (Inr u, ?t2 @ tn)"
            by (metis prod.collapse)
          from tn(4) Inr have tt: "targets tn = [CategorizeTicket, CreateTicket]" by auto
          let ?t3 = "?t2 @ tn"
          from entry_block_trace [of world fmt email summary ?t3] obtain new where
            n: "snd (entry_block world fmt email summary ?t3) = ?t3 @ new"
              "\<not> list_ex is_log new" "\<not> detection_true new"
              "prefix (targets new) [CreateCrmEntry, CreateEntry, MarkAsProcessed]"
              "(\<exists>u. fst (entry_block world fmt email summary ?t3) = Inr u)
                   \<longrightarrow> targets new = [CreateCrmEntry, CreateEntry, MarkAsProcessed]"
            by blast
          from g r1 \<open>r1 = Inr summary\<close> sup True tb
          have pe: "process_email world fmt email t = entry_block world fmt email summary ?t3"
            by (simp add: process_email_def and_then_def lift_def call_def Let_def)
          show ?thesis
            using n tn(2,3) tt True sup unfolding pe
            by (intro exI [of _ "[?e1 r1, ?e2] @ tn @ new"])
               (auto simp: expected_order_def targets_append detection_true_append)
        qed
      qed
    qed
  qed
qed

lemma trace_after_Suc:
  assumes "i < length emails"
  shows "trace_after world fmt emails t (Suc i)
     = process_email_batch world fmt [emails ! i] (trace_after world fmt emails t i)"
  using assms by (simp add: trace_after_def take_Suc_conv_app_nth batch_append)

lemma batch_split:
  assumes "i < length emails"
  shows "process_email_batch world fmt emails t
     = process_email_batch world fmt (drop (Suc i) emails) (trace_after world fmt emails t (Suc i))"
proof -
  have "emails = take (Suc i) emails @ drop (Suc i) emails" by simp
  then have "process_email_batch world fmt emails t
      = process_email_batch world fmt (take (Suc i) emails @ drop (Suc i) emails) t"
    by simp
  then show ?thesis by (simp only: batch_append trace_after_def)
qed

text \<open>
  C2. For every batch and every position \<open>i\<close> in it: when the body of the \<open>try\<close> raises
  on e-mail \<open>i\<close>, the trace after that e-mail is the trace the body left followed by one
  logged error that names the e-mail; when it returns, it is the trace the body left.
  Either way the e-mail adds to the trace, and the whole batch is the batch of the
  e-mails after \<open>i\<close> run from there: no outcome of e-mail \<open>i\<close> stops the later ones.
\<close>

theorem batch_continues_after_failure:
  "\<forall>i < length emails.
     (case process_email world fmt (emails ! i) (trace_after world fmt emails t i) of
        (Inl e, t') \<Rightarrow>
          trace_after world fmt emails t (Suc i)
            = t' @ [LogError (dict_get (emails ! i) ''id'') (str_exn e)]
      | (Inr u, t') \<Rightarrow> trace_after world fmt emails t (Suc i) = t')
     \<and> (\<exists>new. new \<noteq> []
            \<and> trace_after world fmt emails t (Suc i) = trace_after world fmt emails t i @ new)
     \<and> process_email_batch world fmt emails t
         = process_email_batch world fmt (drop (Suc i) emails)
             (trace_after world fmt emails t (Suc i))"
proof (intro allI impI)
  fix i assume i: "i < length emails"
  let ?T = "trace_after world fmt emails t i"
  let ?e = "emails ! i"
  obtain r t' where p: "process_email world fmt ?e ?T = (r, t')" by (cases "process_email world fmt ?e ?T")
  from process_email_trace [of world fmt ?e ?T] p obtain new where
    n: "t' = ?T @ new"
      "(\<exists>u. r = Inr u) \<longrightarrow> targets new = expected_order (detection_true new)"
    by auto
  have a: "(case process_email world fmt ?e ?T of
        (Inl e, t') \<Rightarrow>
          trace_after world fmt emails t (Suc i) = t' @ [LogError (dict_get ?e ''id'') (str_exn e)]
      | (Inr u, t') \<Rightarrow> trace_after world fmt emails t (Suc i) = t')"
    using p by (simp add: trace_after_Suc [OF i] split: sum.splits)
  have b: "\<exists>new. new \<noteq> [] \<and> trace_after world fmt emails t (Suc i) = ?T @ new"
  proof (cases r)
    case (Inl e)
    with p n(1) have "trace_after world fmt emails t (Suc i)
        = ?T @ (new @ [LogError (dict_get ?e ''id'') (str_exn e)])"
      by (simp add: trace_after_Suc [OF i])
    then show ?thesis by blast
  next
    case (Inr u)
    with n(2) have "targets new \<noteq> []" by (simp add: expected_order_def)
    then have "new \<noteq> []" by auto
    moreover from Inr p n(1) have "trace_after world fmt emails t (Suc i) = ?T @ new"
      by (simp add: trace_after_Suc [OF i])
    ultimately show ?thesis by blast
  qed
  show "(case process_email world fmt ?e ?T of
        (Inl e, t') \<Rightarrow>
          trace_after world fmt emails t (Suc i) = t' @ [LogError (dict_get ?e ''id'') (str_exn e)]
      | (Inr u, t') \<Rightarrow> trace_after world fmt emails t (Suc i) = t')
     \<and> (\<exists>new. new \<noteq> [] \<and> trace_after world fmt emails t (Suc i) = ?T @ new)
     \<and> process_email_batch world fmt emails t
         = process_email_batch world fmt (drop (Suc i) emails)
             (trace_after world fmt emails t (Suc i))"
    using a b batch_split [OF i] by blast
qed


theorem batch_continues_after_failure_witness:
  "(0::nat) < length [[], [(''id'', PyStr ''2''), (''subject'', PyStr ''s''), (''body'', PyStr ''b''),
           (''sender'', PyStr ''f''), (''date'', PyStr ''d'')]]
   \<and> process_email (\<lambda>tg t args. Inr (PyBool False)) (\<lambda>v. ''x'') [] []
       = (Inl (KeyError ''subject''), [])
   \<and> process_email_batch (\<lambda>tg t args. Inr (PyBool False)) (\<lambda>v. ''x'')
        [[], [(''id'', PyStr ''2''), (''subject'', PyStr ''s''), (''body'', PyStr ''b''),
              (''sender'', PyStr ''f''), (''date'', PyStr ''d'')]] []
       = process_email_batch (\<lambda>tg t args. Inr (PyBool False)) (\<lambda>v. ''x'')
           [[(''id'', PyStr ''2''), (''subject'', PyStr ''s''), (''body'', PyStr ''b''),
              (''sender'', PyStr ''f''), (''date'', PyStr ''d'')]]
           [LogError PyNone (str_exn (KeyError ''subject''))]
   \<and> targets (process_email_batch (\<lambda>tg t args. Inr (PyBool False)) (\<lambda>v. ''x'')
        [[], [(''id'', PyStr ''2''), (''subject'', PyStr ''s''), (''body'', PyStr ''b''),
              (''sender'', PyStr ''f''), (''date'', PyStr ''d'')]] [])
       = [SummarizeEmail, IsSupportRequest, CreateCrmEntry, CreateEntry, MarkAsProcessed]"
proof -
  let ?W = "\<lambda>(tg :: target) (t :: event list) (args :: pyval list). (Inr (PyBool False) :: exn + pyval)"
  let ?F = "\<lambda>v :: pyval. ''x''"
  let ?e = "[(''id'', PyStr ''2''), (''subject'', PyStr ''s''), (''body'', PyStr ''b''),
           (''sender'', PyStr ''f''), (''date'', PyStr ''d'')]"
  have h: "(0::nat) < length [[], ?e]" by simp
  have p: "process_email ?W ?F [] [] = (Inl (KeyError ''subject''), [])"
    by (simp add: process_email_def and_then_def lift_def getitem_def)
  have ta: "trace_after ?W ?F [[], ?e] [] (Suc 0) = [LogError PyNone (str_exn (KeyError ''subject''))]"
    by (simp add: trace_after_def p dict_get_def)
  have "process_email_batch ?W ?F [[], ?e] []
       = process_email_batch ?W ?F (drop (Suc 0) [[], ?e]) (trace_after ?W ?F [[], ?e] [] (Suc 0))"
    using batch_continues_after_failure [of "[[], ?e]" ?W ?F "[]"] h by blast
  then have c: "process_email_batch ?W ?F [[], ?e] []
       = process_email_batch ?W ?F [?e] [LogError PyNone (str_exn (KeyError ''subject''))]"
    by (simp only: ta drop_Suc_Cons drop_0)
  have d: "targets (process_email_batch ?W ?F [?e] [LogError PyNone (str_exn (KeyError ''subject''))])
       = [SummarizeEmail, IsSupportRequest, CreateCrmEntry, CreateEntry, MarkAsProcessed]"
    by (simp add: process_email_def entry_block_def and_then_def lift_def returning_def call_def
        summarize_email_def create_crm_entry_def getitem_def dict_get_def truthy_def Let_def)
  show ?thesis using h p c d by simp
qed





end
